theory Spec2Isabelle
  imports Complex_Main "HOL-Library.Log_Nat"
begin

section \<open>Python values shared by both front-ends\<close>

text \<open>
  A Python \<^verbatim>\<open>str\<close> is a sequence of Unicode code points, and \<^verbatim>\<open>len\<close> counts code
  points. The programs print chess glyphs, a block character and Polish letters, so a
  string is modelled as the list of its code points.
\<close>

type_synonym pystr = "nat list"

definition ascii :: "string \<Rightarrow> pystr" where
  "ascii s = map of_char s"

text \<open>
  Exceptions are values. Each carries the text that \<^verbatim>\<open>str(e)\<close> yields, because the
  handlers of both programs format the exception into a status line. \<open>Exception\<close> stands
  for the exceptions of the chess, engine, tablebase, socket and HTTP libraries.
\<close>

datatype exn =
    ZeroDivisionError pystr
  | IndexError pystr
  | OverflowError pystr
  | Exception pystr

fun str_exn :: "exn \<Rightarrow> pystr" where
  "str_exn (ZeroDivisionError m) = m"
| "str_exn (IndexError m) = m"
| "str_exn (OverflowError m) = m"
| "str_exn (Exception m) = m"

section \<open>chesspy.py: the evaluation thermometer\<close>

subsection \<open>Python floats\<close>

text \<open>
  \<^verbatim>\<open>generate_thermometer\<close> computes \<^verbatim>\<open>int(round((cp / cp_range) * center))\<close> in binary64
  arithmetic. A finite float is modelled by the rational it denotes (the sign of zero is
  dropped: the result is converted to an integer). \<open>fl64\<close> is IEEE 754 rounding to the
  nearest binary64 value, ties to even, with gradual underflow; \<open>None\<close> is overflow.
\<close>

definition pow2 :: "int \<Rightarrow> rat" where
  "pow2 n = (if 0 \<le> n then 2 ^ nat n else 1 / 2 ^ nat (- n))"

definition round_half_even :: "rat \<Rightarrow> int" where
  "round_half_even x =
     (let f = \<lfloor>x\<rfloor>; d = x - of_int f
      in if d < 1 / 2 then f else if 1 / 2 < d then f + 1
         else if even f then f else f + 1)"

text \<open>\<open>ilog2 x\<close> is the binary exponent of a non-zero \<open>x\<close>: the \<open>e\<close> with \<open>2^e \<le> |x| < 2^(e+1)\<close>.\<close>

definition ilog2 :: "rat \<Rightarrow> int" where
  "ilog2 x =
     (let (p, q) = quotient_of \<bar>x\<bar>;
          d = bitlen p - bitlen q
      in if pow2 d \<le> \<bar>x\<bar> then d else d - 1)"

definition fl64 :: "rat \<Rightarrow> rat option" where
  "fl64 x =
     (if x = 0 then Some 0
      else let e = max (ilog2 x) (- 1022);
               q = pow2 (e - 52);
               r = of_int (round_half_even (x / q)) * q
           in if pow2 1024 \<le> \<bar>r\<bar> then None else Some r)"

text \<open>
  \<^verbatim>\<open>a / b\<close> on two \<^verbatim>\<open>int\<close>s is the correctly rounded quotient; it raises on a zero divisor
  and when the quotient is too large for a float.
\<close>

definition int_true_div :: "int \<Rightarrow> int \<Rightarrow> exn + rat" where
  "int_true_div a b =
     (if b = 0 then Inl (ZeroDivisionError (ascii ''division by zero''))
      else case fl64 (of_int a / of_int b) of
             None \<Rightarrow> Inl (OverflowError (ascii ''integer division result too large for a float''))
           | Some r \<Rightarrow> Inr r)"

text \<open>\<^verbatim>\<open>float * int\<close> first converts the \<^verbatim>\<open>int\<close>, which raises when it is too large.\<close>

definition float_of_int :: "int \<Rightarrow> exn + rat" where
  "float_of_int n =
     (case fl64 (of_int n) of
        None \<Rightarrow> Inl (OverflowError (ascii ''int too large to convert to float''))
      | Some r \<Rightarrow> Inr r)"

text \<open>A product that overflows is an infinity (\<open>None\<close>), which \<^verbatim>\<open>round\<close> refuses.\<close>

definition float_mul :: "rat \<Rightarrow> rat \<Rightarrow> rat option" where
  "float_mul a b = fl64 (a * b)"

definition py_round :: "rat option \<Rightarrow> exn + int" where
  "py_round x =
     (case x of
        None \<Rightarrow> Inl (OverflowError (ascii ''cannot convert float infinity to integer''))
      | Some r \<Rightarrow> Inr (round_half_even r))"

subsection \<open>generate_thermometer\<close>

text \<open>
  The loop \<^verbatim>\<open>for i in range(length): bar += "X" if i == marker else "-"\<close>, with the block
  character U+2588 (9608) as the marker and \<open>-\<close> (45) elsewhere.
\<close>

definition thermometer_bar :: "int \<Rightarrow> int \<Rightarrow> pystr" where
  "thermometer_bar marker len = map (\<lambda>i. if i = marker then 9608 else 45) [0..len - 1]"

definition generate_thermometer :: "int \<Rightarrow> int \<Rightarrow> int \<Rightarrow> exn + pystr" where
  "generate_thermometer cp0 cp_range len =
     (let cp = max (- cp_range) (min cp0 cp_range);
          center = len div 2
      in case int_true_div cp cp_range of
           Inl e \<Rightarrow> Inl e
         | Inr ratio \<Rightarrow>
             (case float_of_int center of
                Inl e \<Rightarrow> Inl e
              | Inr fcenter \<Rightarrow>
                  (case py_round (float_mul ratio fcenter) of
                     Inl e \<Rightarrow> Inl e
                   | Inr offset \<Rightarrow>
                       Inr ([91] @ thermometer_bar (center + offset) len @ [93]))))"

text \<open>
  The marker position as the specification words it, for the default parameters
  \<^verbatim>\<open>cp_range=300\<close>, \<^verbatim>\<open>length=15\<close>: \<open>length//2\<close> plus the rounding (ties to even) of the
  exact quotient \<open>clamp(cp, -300, 300)/300 * (length//2)\<close>, with no floating point.
\<close>

definition marker_spec :: "int \<Rightarrow> int" where
  "marker_spec cp =
     15 div 2 + round_half_even (of_int (max (- 300) (min cp 300)) / 300 * of_int (15 div 2))"

section \<open>Python string operations used by the programs\<close>

text \<open>
  \<^verbatim>\<open>str.isspace\<close> for one character: the whitespace that \<^verbatim>\<open>strip()\<close>, \<^verbatim>\<open>rstrip()\<close> and
  \<^verbatim>\<open>split()\<close> without an argument remove.
\<close>

definition is_space :: "nat \<Rightarrow> bool" where
  "is_space c \<longleftrightarrow>
     (9 \<le> c \<and> c \<le> 13) \<or> (28 \<le> c \<and> c \<le> 32) \<or> c = 133 \<or> c = 160 \<or> c = 5760
     \<or> (8192 \<le> c \<and> c \<le> 8202) \<or> c = 8232 \<or> c = 8233 \<or> c = 8239 \<or> c = 8287
     \<or> c = 12288"

definition rstrip :: "pystr \<Rightarrow> pystr" where
  "rstrip s = rev (dropWhile is_space (rev s))"

definition strip :: "pystr \<Rightarrow> pystr" where
  "strip s = rstrip (dropWhile is_space s)"

text \<open>
  \<^verbatim>\<open>s.split()\<close>: the maximal runs of non-whitespace, in order; \<open>cur\<close> is the run being
  read.
\<close>

fun split_ws_from :: "pystr \<Rightarrow> pystr \<Rightarrow> pystr list" where
  "split_ws_from cur [] = (if cur = [] then [] else [cur])"
| "split_ws_from cur (c # cs) =
     (if is_space c then (if cur = [] then split_ws_from [] cs else cur # split_ws_from [] cs)
      else split_ws_from (cur @ [c]) cs)"

definition split_ws :: "pystr \<Rightarrow> pystr list" where
  "split_ws s = split_ws_from [] s"

text \<open>\<^verbatim>\<open>s.split(sep)\<close> for a one-character separator: never empty, empty fields kept.\<close>

fun split_on :: "nat \<Rightarrow> pystr \<Rightarrow> pystr list" where
  "split_on sep [] = [[]]"
| "split_on sep (c # cs) =
     (if c = sep then [] # split_on sep cs
      else (case split_on sep cs of [] \<Rightarrow> [[c]] | t # ts \<Rightarrow> (c # t) # ts))"

text \<open>\<^verbatim>\<open>sep.join(xs)\<close>.\<close>

fun join :: "pystr \<Rightarrow> pystr list \<Rightarrow> pystr" where
  "join sep [] = []"
| "join sep [x] = x"
| "join sep (x # y # ys) = x @ sep @ join sep (y # ys)"

definition startswith :: "pystr \<Rightarrow> pystr \<Rightarrow> bool" where
  "startswith s p \<longleftrightarrow> take (length p) s = p"

text \<open>\<^verbatim>\<open>str(n)\<close> for an \<^verbatim>\<open>int\<close>, as the f-strings format move counters and WDL values.\<close>

fun digits :: "nat \<Rightarrow> pystr" where
  "digits n = (if n < 10 then [48 + n] else digits (n div 10) @ [48 + n mod 10])"

definition str_int :: "int \<Rightarrow> pystr" where
  "str_int i = (if i < 0 then 45 # digits (nat (- i)) else digits (nat i))"


section \<open>The external libraries\<close>

text \<open>
  Neither program contains chess rules: boards and moves belong to the python-chess
  library. Its entry points are parameters of the model: a record of functions over an
  abstract type \<open>'b\<close> of board positions and \<open>'m\<close> of \<^verbatim>\<open>chess.Move\<close> objects. A library
  call that can raise returns a sum. \<open>legal_moves\<close> lists \<^verbatim>\<open>board.legal_moves\<close>; the test
  \<^verbatim>\<open>mv in board.legal_moves\<close> is membership in that list. A piece is its
  \<^verbatim>\<open>(piece_type, color)\<close> with \<^verbatim>\<open>chess.PAWN .. chess.KING = 1 .. 6\<close> and
  \<^verbatim>\<open>chess.WHITE = True\<close>. \<open>san_none\<close> is the exception of \<^verbatim>\<open>board.san(None)\<close>, which the
  engine path reaches when the engine reports no move.
\<close>

type_synonym piece = "nat \<times> bool"

definition WHITE :: bool where
  "WHITE = True"

definition BLACK :: bool where
  "BLACK = False"

record ('b, 'm) chess_lib =
  new_board :: "'b"
  push :: "'b \<Rightarrow> 'm \<Rightarrow> 'b"
  legal_moves :: "'b \<Rightarrow> 'm list"
  san :: "'b \<Rightarrow> 'm \<Rightarrow> exn + pystr"
  san_none :: "'b \<Rightarrow> exn"
  parse_uci :: "'b \<Rightarrow> pystr \<Rightarrow> exn + 'm"
  parse_san :: "'b \<Rightarrow> pystr \<Rightarrow> exn + 'm"
  push_uci :: "'b \<Rightarrow> pystr \<Rightarrow> exn + 'b"
  piece_at :: "'b \<Rightarrow> nat \<Rightarrow> piece option"
  piece_map :: "'b \<Rightarrow> (nat \<times> piece) list"
  turn :: "'b \<Rightarrow> bool"
  is_game_over :: "'b \<Rightarrow> bool"
  result :: "'b \<Rightarrow> pystr"
  Move :: "nat \<Rightarrow> nat \<Rightarrow> 'm"
  uci :: "'m \<Rightarrow> pystr"
  move_bool :: "'m \<Rightarrow> bool"

text \<open>
  "A legal chess position" in the specification's words: a position that the library
  reaches from the starting position by legal moves only.
\<close>

inductive legal_position :: "('b, 'm) chess_lib \<Rightarrow> 'b \<Rightarrow> bool" for lib :: "('b, 'm) chess_lib" where
  start: "legal_position lib (new_board lib)"
| step: "legal_position lib b \<Longrightarrow> mv \<in> set (legal_moves lib b) \<Longrightarrow> legal_position lib (push lib b mv)"

code_pred legal_position .

text \<open>\<^verbatim>\<open>chess.square(file, rank)\<close>.\<close>

definition square :: "nat \<Rightarrow> nat \<Rightarrow> nat" where
  "square file rank = rank * 8 + file"

text \<open>
  The Syzygy probe library: \<^verbatim>\<open>chess.syzygy.open_tablebase(path)\<close> and
  \<^verbatim>\<open>tablebase.probe_wdl(board)\<close>, both of which can raise.
\<close>

record ('b, 'tb) syzygy_lib =
  open_tablebase :: "pystr \<Rightarrow> exn + 'tb"
  probe_wdl :: "'tb \<Rightarrow> 'b \<Rightarrow> exn + int"

section \<open>chesspy.py: the curses front-end\<close>

subsection \<open>Configuration and board rendering\<close>

definition USE_SYZYGY_AFTER_MOVE :: bool where
  "USE_SYZYGY_AFTER_MOVE = True"






subsection \<open>parse_move\<close>

text \<open>
  The text that \<^verbatim>\<open>parse_move\<close> hands to the parsers: the stripped input, cut to its last
  token when it contains a full stop (46).
\<close>

definition move_token :: "pystr \<Rightarrow> pystr" where
  "move_token user_input =
     (let s = strip user_input
      in if 46 \<in> set s
         then (let tokens = split_ws s in if tokens \<noteq> [] then last tokens else s)
         else s)"

text \<open>
  "The last whitespace-separated token" in the specification's words: the longest suffix
  of a text that holds no whitespace.
\<close>

definition last_word :: "pystr \<Rightarrow> pystr" where
  "last_word s = rev (takeWhile (\<lambda>c. \<not> is_space c) (rev s))"

text \<open>
  \<^verbatim>\<open>parse_move\<close> with the parser calls it makes, in order: UCI first, and SAN in the
  handler of the bare \<^verbatim>\<open>except\<close>. An exception of \<^verbatim>\<open>parse_san\<close> propagates.
\<close>

datatype parse_call = ParseUci pystr | ParseSan pystr

definition parse_move_calls ::
  "('b, 'm) chess_lib \<Rightarrow> pystr \<Rightarrow> 'b \<Rightarrow> parse_call list \<times> (exn + 'm)" where
  "parse_move_calls lib user_input b =
     (let s = move_token user_input
      in case parse_uci lib b s of
           Inr mv \<Rightarrow> ([ParseUci s], Inr mv)
         | Inl _ \<Rightarrow> ([ParseUci s, ParseSan s], parse_san lib b s))"

definition parse_move :: "('b, 'm) chess_lib \<Rightarrow> pystr \<Rightarrow> 'b \<Rightarrow> exn + 'm" where
  "parse_move lib user_input b = snd (parse_move_calls lib user_input b)"

subsection \<open>ChessApp\<close>

text \<open>
  The fields of \<^verbatim>\<open>ChessApp\<close>. \<open>engine\<close> is \<open>None\<close> or the handle of the UCI process.
  \<open>syzygy_calls\<close> is not a field of the program: it logs the calls made to the tablebase
  library, so that "a probe is performed" can be stated.
\<close>

datatype 'b tb_call = OpenTablebase pystr | ProbeWdl 'b

record ('b, 'e) ChessApp =
  board :: "'b"
  engine :: "'e option"
  tb_path :: "pystr option"
  human_color :: bool
  move_count :: int
  last_move_white :: pystr
  last_move_black :: pystr
  input_line :: pystr
  best_eval_str :: pystr
  analysis_variants :: "(int \<times> pystr \<times> pystr) list"
  status_msg :: pystr
  syzygy_calls :: "'b tb_call list"

text \<open>The word \<^verbatim>\<open>Blad\<close> with its Polish letters (U+0142, U+0105), which starts every error line.\<close>

definition blad :: pystr where
  "blad = [66, 322, 261, 100]"

text \<open>"A tablebase path is configured": \<^verbatim>\<open>self.tb_path\<close> is truthy, a non-empty string.\<close>

definition tb_path_set :: "('b, 'e) ChessApp \<Rightarrow> bool" where
  "tb_path_set app = (case tb_path app of None \<Rightarrow> False | Some path \<Rightarrow> path \<noteq> [])"

text \<open>
  \<^verbatim>\<open>synergy_check\<close>. The guard is Python truthiness of \<^verbatim>\<open>tb_path\<close> (neither \<^verbatim>\<open>None\<close> nor
  the empty string) and \<^verbatim>\<open>len(board.piece_map()) <= 7\<close>; both library calls are inside
  the \<^verbatim>\<open>try\<close>.
\<close>

definition synergy_check ::
  "('b, 'm) chess_lib \<Rightarrow> ('b, 'tb) syzygy_lib \<Rightarrow> ('b, 'e) ChessApp \<Rightarrow> ('b, 'e) ChessApp" where
  "synergy_check lib syz app =
     (case tb_path app of
        None \<Rightarrow> app
      | Some path \<Rightarrow>
          if path \<noteq> [] \<and> length (piece_map lib (board app)) \<le> 7
          then (case open_tablebase syz path of
                  Inl e \<Rightarrow>
                    app\<lparr>status_msg := blad @ ascii '' Syzygy: '' @ str_exn e,
                        syzygy_calls := syzygy_calls app @ [OpenTablebase path]\<rparr>
                | Inr tablebase \<Rightarrow>
                    (case probe_wdl syz tablebase (board app) of
                       Inl e \<Rightarrow>
                         app\<lparr>status_msg := blad @ ascii '' Syzygy: '' @ str_exn e,
                             syzygy_calls := syzygy_calls app
                                @ [OpenTablebase path, ProbeWdl (board app)]\<rparr>
                     | Inr wdl \<Rightarrow>
                         app\<lparr>status_msg := ascii ''(Syzygy) WDL = '' @ str_int wdl,
                             syzygy_calls := syzygy_calls app
                                @ [OpenTablebase path, ProbeWdl (board app)]\<rparr>))
          else app)"

text \<open>
  \<^verbatim>\<open>do_move\<close>: the SAN is taken in the old position and can raise, before anything is
  changed; then the move is pushed and the counters follow the side to move.
\<close>

definition do_move ::
  "('b, 'm) chess_lib \<Rightarrow> ('b, 'tb) syzygy_lib \<Rightarrow> ('b, 'e) ChessApp \<Rightarrow> 'm
     \<Rightarrow> exn + ('b, 'e) ChessApp" where
  "do_move lib syz app mv =
     (case san lib (board app) mv of
        Inl e \<Rightarrow> Inl e
      | Inr move_san \<Rightarrow>
          (let app1 = app\<lparr>board := push lib (board app) mv\<rparr>;
               app2 = (if turn lib (board app1) = WHITE
                       then app1\<lparr>last_move_black := move_san,
                                 move_count := move_count app1 + 1\<rparr>
                       else app1\<lparr>last_move_white := move_san\<rparr>)
           in Inr (if USE_SYZYGY_AFTER_MOVE then synergy_check lib syz app2 else app2)))"

text \<open>\<^verbatim>\<open>handle_player_move\<close>: the whole body is inside \<^verbatim>\<open>try ... except Exception\<close>.\<close>

definition handle_player_move ::
  "('b, 'm) chess_lib \<Rightarrow> ('b, 'tb) syzygy_lib \<Rightarrow> ('b, 'e) ChessApp \<Rightarrow> pystr
     \<Rightarrow> ('b, 'e) ChessApp" where
  "handle_player_move lib syz app user_input =
     (case parse_move lib user_input (board app) of
        Inl e \<Rightarrow> app\<lparr>status_msg := blad @ ascii '' ruchu: '' @ str_exn e\<rparr>
      | Inr mv \<Rightarrow>
          if mv \<notin> set (legal_moves lib (board app))
          then app\<lparr>status_msg := ascii ''Nielegalny ruch.''\<rparr>
          else (case do_move lib syz app mv of
                  Inl e \<Rightarrow> app\<lparr>status_msg := blad @ ascii '' ruchu: '' @ str_exn e\<rparr>
                | Inr app' \<Rightarrow> app'\<lparr>status_msg := []\<rparr>))"

text \<open>
  \<^verbatim>\<open>handle_engine_move\<close>. \<open>reply\<close> is what \<^verbatim>\<open>self.engine.play(board, Limit(depth=10))\<close>
  yields: an exception, or a result whose \<^verbatim>\<open>move\<close> is a move or \<^verbatim>\<open>None\<close>.
\<close>

definition handle_engine_move ::
  "('b, 'm) chess_lib \<Rightarrow> ('b, 'tb) syzygy_lib \<Rightarrow> exn + 'm option \<Rightarrow> ('b, 'e) ChessApp
     \<Rightarrow> ('b, 'e) ChessApp" where
  "handle_engine_move lib syz reply app =
     (case engine app of
        None \<Rightarrow> app
      | Some _ \<Rightarrow>
          (case reply of
             Inl e \<Rightarrow> app\<lparr>status_msg := blad @ ascii '' silnika: '' @ str_exn e\<rparr>
           | Inr None \<Rightarrow>
               app\<lparr>status_msg := blad @ ascii '' silnika: '' @ str_exn (san_none lib (board app))\<rparr>
           | Inr (Some mv) \<Rightarrow>
               (case san lib (board app) mv of
                  Inl e \<Rightarrow> app\<lparr>status_msg := blad @ ascii '' silnika: '' @ str_exn e\<rparr>
                | Inr move_san \<Rightarrow>
                    (case do_move lib syz app mv of
                       Inl e \<Rightarrow> app\<lparr>status_msg := blad @ ascii '' silnika: '' @ str_exn e\<rparr>
                     | Inr app' \<Rightarrow>
                         app'\<lparr>status_msg := ascii ''Silnik (ruch): '' @ move_san\<rparr>))))"

subsection \<open>draw_screen\<close>





subsection \<open>The board as it should appear\<close>




section \<open>chesspy_windows.py: the pygame front-end\<close>

subsection \<open>Window geometry and events\<close>

definition WIDTH :: int where
  "WIDTH = 800"

definition HEIGHT :: int where
  "HEIGHT = 600"

definition SQUARE_SIZE :: int where
  "SQUARE_SIZE = 64"

definition BOARD_WIDTH :: int where
  "BOARD_WIDTH = 8 * SQUARE_SIZE"

definition BOARD_HEIGHT :: int where
  "BOARD_HEIGHT = 8 * SQUARE_SIZE"

definition DEFAULT_OFFSET_X :: int where
  "DEFAULT_OFFSET_X = (WIDTH - BOARD_WIDTH) div 2"

definition DEFAULT_OFFSET_Y :: int where
  "DEFAULT_OFFSET_Y = (HEIGHT - BOARD_HEIGHT) div 2"

text \<open>The pygame events the loops look at; every other event type is \<open>OtherEvent\<close>.\<close>

datatype event = QUIT | MOUSEBUTTONDOWN int int | OtherEvent

text \<open>
  The square under a mouse click, as all three game loops compute it; \<open>None\<close> when the
  click is off the board.
\<close>

definition click_square :: "int \<Rightarrow> int \<Rightarrow> nat option" where
  "click_square x y =
     (let file = (x - DEFAULT_OFFSET_X) div SQUARE_SIZE;
          rank = 7 - ((y - DEFAULT_OFFSET_Y) div SQUARE_SIZE)
      in if 0 \<le> file \<and> file < 8 \<and> 0 \<le> rank \<and> rank < 8
         then Some (square (nat file) (nat rank)) else None)"

text \<open>
  What a function does to the outside is the sequence of these calls: the screen fill,
  \<^verbatim>\<open>draw_board(board)\<close> with the board it is given, \<^verbatim>\<open>get_analysis\<close> with its board, a
  text blitted to the screen, the display flip, a line printed, \<^verbatim>\<open>pygame.quit()\<close>, and
  the data handed to \<^verbatim>\<open>client_socket.send\<close>. Rectangles, timing calls
  (\<^verbatim>\<open>sleep\<close>, \<^verbatim>\<open>tick\<close>) and pixel positions are not traced.
\<close>

datatype 'b gui_call =
    Fill
  | DrawBoard 'b
  | GetAnalysis 'b
  | Blit pystr
  | Flip
  | Print pystr
  | PygameQuit
  | Send pystr

text \<open>
  How a loop or a handler ends: it is still running when the recorded input is used up,
  it returned, the program left through \<^verbatim>\<open>sys.exit()\<close>, or an exception escaped.
\<close>

datatype 's outcome = Running 's | Returned 's | SysExit | Raised exn

text \<open>
  What one pass of a game loop reads from outside: the list \<^verbatim>\<open>pygame.event.get()\<close>
  returns, the engine's answer to \<^verbatim>\<open>play\<close>, the index \<^verbatim>\<open>random.choice\<close> draws, and what
  the receive thread got from \<^verbatim>\<open>client_socket.recv(1024).decode()\<close> since the last pass
  (an exception or a decoded text each).
\<close>

record 'm frame =
  events :: "event list"
  engine_reply :: "exn + 'm option"
  random_index :: nat
  received :: "(exn + pystr) list"

text \<open>The local state of a game loop, and the global \<^verbatim>\<open>move_history\<close>.\<close>

record ('b, 'm) game =
  g_board :: "'b"
  selected_square :: "nat option"
  move_history :: "'m list"
  running :: bool

subsection \<open>The puzzle download\<close>

datatype json =
    JNull
  | JBool bool
  | JNumber rat
  | JString pystr
  | JArray "json list"
  | JObject "(pystr \<times> json) list"

text \<open>Python truthiness of a decoded JSON value; \<open>JNull\<close> is \<^verbatim>\<open>None\<close>.\<close>

fun py_truthy :: "json \<Rightarrow> bool" where
  "py_truthy JNull = False"
| "py_truthy (JBool b) = b"
| "py_truthy (JNumber x) = (x \<noteq> 0)"
| "py_truthy (JString s) = (s \<noteq> [])"
| "py_truthy (JArray xs) = (xs \<noteq> [])"
| "py_truthy (JObject kvs) = (kvs \<noteq> [])"

text \<open>
  \<^verbatim>\<open>get_lichess_puzzle\<close>. \<open>http\<close> is the outcome of \<^verbatim>\<open>requests.get(PUZZLE_API_URL)\<close>: an
  exception, or a response with its status code and the outcome of \<^verbatim>\<open>response.json()\<close>.
  The result is the lines printed and the value returned.
\<close>

definition get_lichess_puzzle :: "exn + int \<times> (exn + json) \<Rightarrow> pystr list \<times> json" where
  "get_lichess_puzzle http =
     (case http of
        Inl e \<Rightarrow> ([blad @ ascii '' pobierania zadania z Lichess: '' @ str_exn e], JNull)
      | Inr (status_code, body) \<Rightarrow>
          if status_code = 200
          then (case body of
                  Inl e \<Rightarrow>
                    ([blad @ ascii '' pobierania zadania z Lichess: '' @ str_exn e], JNull)
                | Inr puzzle \<Rightarrow> ([], puzzle))
          else ([], JNull))"

text \<open>
  \<^verbatim>\<open>draw_puzzle\<close>: the guard \<^verbatim>\<open>if not puzzle\<close> and its early return. \<open>session\<close> is the
  interactive part that follows the guard (it builds a board from the puzzle's PGN and
  runs the solution loop).
\<close>

definition draw_puzzle :: "(json \<Rightarrow> 'b gui_call list) \<Rightarrow> json \<Rightarrow> 'b gui_call list" where
  "draw_puzzle session puzzle =
     (if \<not> py_truthy puzzle
      then [Print (ascii ''Brak zadania do wy'' @ [347] @ ascii ''wietlenia'')]
      else session puzzle)"

subsection \<open>play_against_ai\<close>

text \<open>
  \<^verbatim>\<open>EngineWrapper.get_move\<close>: \<open>wrapped\<close> is the wrapper's \<^verbatim>\<open>engine\<close> field, \<open>reply\<close> the outcome
  of \<^verbatim>\<open>engine.play\<close>.
\<close>

definition get_move :: "'e option \<Rightarrow> exn + 'm option \<Rightarrow> 'b gui_call list \<times> 'm option" where
  "get_move wrapped reply =
     (case wrapped of
        None \<Rightarrow> ([], None)
      | Some _ \<Rightarrow>
          (case reply of
             Inl e \<Rightarrow> ([Print (blad @ ascii '' silnika: '' @ str_exn e)], None)
           | Inr mv \<Rightarrow> ([], mv)))"

text \<open>\<^verbatim>\<open>random.choice(xs)\<close>, where \<open>r\<close> is the random number drawn.\<close>

definition py_choice :: "nat \<Rightarrow> 'a list \<Rightarrow> exn + 'a" where
  "py_choice r xs =
     (if xs = [] then Inl (IndexError (ascii ''Cannot choose from an empty sequence''))
      else Inr (xs ! (r mod length xs)))"

text \<open>One \<^verbatim>\<open>MOUSEBUTTONDOWN\<close> event of \<^verbatim>\<open>play_against_ai\<close>.\<close>

definition ai_click ::
  "('b, 'm) chess_lib \<Rightarrow> ('b, 'm) game \<Rightarrow> int \<Rightarrow> int \<Rightarrow> 'b gui_call list \<times> ('b, 'm) game" where
  "ai_click lib g x y =
     (case click_square x y of
        None \<Rightarrow> ([], g)
      | Some sq \<Rightarrow>
          (case selected_square g of
             None \<Rightarrow>
               (case piece_at lib (g_board g) sq of
                  None \<Rightarrow> ([], g)
                | Some p \<Rightarrow> if snd p = WHITE then ([], g\<lparr>selected_square := Some sq\<rparr>) else ([], g))
           | Some sel \<Rightarrow>
               (let move = Move lib sel sq
                in if move \<in> set (legal_moves lib (g_board g))
                   then ([], g\<lparr>g_board := push lib (g_board g) move,
                               move_history := move_history g @ [move],
                               selected_square := None\<rparr>)
                   else ([Blit ([66, 322, 281] @ ascii ''dny ruch! Spr'' @ [243]
                                  @ ascii ''buj ponownie.''), Flip],
                         g\<lparr>selected_square := None\<rparr>))))"

text \<open>The loop \<^verbatim>\<open>for event in pygame.event.get()\<close> of White's turn.\<close>

fun ai_events ::
  "('b, 'm) chess_lib \<Rightarrow> ('b, 'm) game \<Rightarrow> event list
     \<Rightarrow> 'b gui_call list \<times> ('b, 'm) game outcome" where
  "ai_events lib g [] = ([], Running g)"
| "ai_events lib g (QUIT # evs) = ([PygameQuit], SysExit)"
| "ai_events lib g (MOUSEBUTTONDOWN x y # evs) =
     (let (eff, g') = ai_click lib g x y;
          (effs, out) = ai_events lib g' evs
      in (eff @ effs, out))"
| "ai_events lib g (OtherEvent # evs) = ai_events lib g evs"

text \<open>The \<^verbatim>\<open>else\<close> branch of the loop: the engine moves, or a random legal move is played.\<close>

definition ai_engine_turn ::
  "('b, 'm) chess_lib \<Rightarrow> 'e option \<Rightarrow> ('b, 'm) game \<Rightarrow> 'm frame
     \<Rightarrow> 'b gui_call list \<times> ('b, 'm) game outcome" where
  "ai_engine_turn lib wrapped g fr =
     (let (eff, engine_move) = get_move wrapped (engine_reply fr);
          fallback =
            (case py_choice (random_index fr) (legal_moves lib (g_board g)) of
               Inl e \<Rightarrow> (eff, Raised e)
             | Inr mv \<Rightarrow> (eff, Running (g\<lparr>g_board := push lib (g_board g) mv,
                                            move_history := move_history g @ [mv]\<rparr>)))
      in case engine_move of
           None \<Rightarrow> fallback
         | Some m \<Rightarrow>
             if move_bool lib m \<and> m \<in> set (legal_moves lib (g_board g))
             then (eff, Running (g\<lparr>g_board := push lib (g_board g) m,
                                    move_history := move_history g @ [m]\<rparr>))
             else fallback)"

text \<open>One pass of \<^verbatim>\<open>while running\<close>; \<open>Running\<close> means the loop goes on to its next pass.\<close>

definition ai_iteration ::
  "('b, 'm) chess_lib \<Rightarrow> 'e option \<Rightarrow> ('b, 'm) game \<Rightarrow> 'm frame
     \<Rightarrow> 'b gui_call list \<times> ('b, 'm) game outcome" where
  "ai_iteration lib wrapped g fr =
     (let head = [Fill, DrawBoard (g_board g), GetAnalysis (g_board g),
                  Blit (ascii ''Ruchy: '' @ join (ascii '' '') (map (uci lib) (move_history g))),
                  Flip]
      in if is_game_over lib (g_board g)
         then (head @ [Print (ascii ''Gra zako'' @ [324] @ ascii ''czona: '' @ result lib (g_board g))],
               Returned g)
         else if turn lib (g_board g) = WHITE
         then (let (eff, out) = ai_events lib g (events fr) in (head @ eff, out))
         else (let (eff, out) = ai_engine_turn lib wrapped g fr in (head @ eff, out)))"

fun ai_loop ::
  "('b, 'm) chess_lib \<Rightarrow> 'e option \<Rightarrow> ('b, 'm) game \<Rightarrow> 'm frame list
     \<Rightarrow> 'b gui_call list \<times> ('b, 'm) game outcome" where
  "ai_loop lib wrapped g [] = ([], Running g)"
| "ai_loop lib wrapped g (fr # frs) =
     (case ai_iteration lib wrapped g fr of
        (eff, Running g') \<Rightarrow> (let (effs, out) = ai_loop lib wrapped g' frs in (eff @ effs, out))
      | (eff, out) \<Rightarrow> (eff, out))"

text \<open>
  \<^verbatim>\<open>play_against_ai\<close>: \<open>wrapped\<close> is the engine after \<^verbatim>\<open>start_engine()\<close> (\<open>None\<close> when the
  launch failed); the game starts from a new board with an empty history.
\<close>

definition play_against_ai ::
  "('b, 'm) chess_lib \<Rightarrow> 'e option \<Rightarrow> 'm frame list
     \<Rightarrow> 'b gui_call list \<times> ('b, 'm) game outcome" where
  "play_against_ai lib wrapped frames =
     ai_loop lib wrapped
       \<lparr>g_board = new_board lib, selected_square = None, move_history = [], running = True\<rparr>
       frames"

subsection \<open>Online play\<close>

text \<open>
  \<^verbatim>\<open>send_to_server\<close>. \<open>sock\<close> is the socket seen from the client: for the data sent, what
  \<^verbatim>\<open>send\<close> followed by \<^verbatim>\<open>recv(2048).decode()\<close> yields. The result is the trace and the
  response returned.
\<close>

definition send_to_server ::
  "(pystr \<Rightarrow> exn + pystr) \<Rightarrow> pystr \<Rightarrow> 'b gui_call list \<times> pystr" where
  "send_to_server sock data =
     (case sock data of
        Inr response \<Rightarrow> ([Send data], response)
      | Inl e \<Rightarrow>
          ([Send data, Print (blad @ ascii '' komunikacji z serwerem: '' @ str_exn e)],
           ascii ''ERROR|'' @ blad @ ascii '' komunikacji''))"

text \<open>The four messages, as the f-strings build them (124 is the separator \<open>|\<close>).\<close>

definition login_msg :: "pystr \<Rightarrow> pystr \<Rightarrow> pystr" where
  "login_msg user pass = ascii ''LOGIN|'' @ user @ [124] @ pass"

definition move_msg :: "pystr \<Rightarrow> pystr \<Rightarrow> pystr" where
  "move_msg opponent u = ascii ''MOVE|'' @ opponent @ [124] @ u"

definition game_over_msg :: "pystr \<Rightarrow> pystr \<Rightarrow> pystr \<Rightarrow> pystr" where
  "game_over_msg user opponent res = ascii ''GAME_OVER|'' @ user @ [124] @ opponent @ [124] @ res"

definition start_match_msg :: pystr where
  "start_match_msg = ascii ''START_MATCH''"

text \<open>
  \<^verbatim>\<open>login_screen\<close> sets the globals \<^verbatim>\<open>username\<close> and \<^verbatim>\<open>password\<close> and logs in; the result
  is the trace and the two globals.
\<close>

definition login_screen ::
  "(pystr \<Rightarrow> exn + pystr) \<Rightarrow> 'b gui_call list \<times> pystr \<times> pystr" where
  "login_screen sock =
     (let username = ascii ''Buldozer'';
          password = ascii ''123'';
          (eff, response) = send_to_server sock (login_msg username password)
      in (eff @ [Print (ascii ''Odpowied'' @ [378] @ ascii '' serwera na login: '' @ response)],
          username, password))"

text \<open>
  One pass of the loop of \<^verbatim>\<open>receive_thread\<close> on what \<^verbatim>\<open>recv(1024).decode()\<close> gave: the new
  board, or the exception that ends the thread. \<^verbatim>\<open>data.split("|")[1]\<close> raises when there
  is no separator.
\<close>

definition receive_step :: "('b, 'm) chess_lib \<Rightarrow> 'b \<Rightarrow> exn + pystr \<Rightarrow> exn + 'b" where
  "receive_step lib b r =
     (case r of
        Inl e \<Rightarrow> Inl e
      | Inr data \<Rightarrow>
          if startswith data (ascii ''OPPONENT_MOVE'')
          then (let parts = split_on 124 data
                in if length parts \<le> 1 then Inl (IndexError (ascii ''list index out of range''))
                   else push_uci lib b (parts ! 1))
          else Inr b)"

text \<open>
  "The text between the first and the second separator" in the specification's words: what
  follows the first \<open>|\<close>, up to the next \<open>|\<close> or the end.
\<close>

definition second_field :: "pystr \<Rightarrow> pystr" where
  "second_field data = takeWhile (\<lambda>c. c \<noteq> 124) (tl (dropWhile (\<lambda>c. c \<noteq> 124) data))"

text \<open>
  The thread on a sequence of receptions: the board it leaves, and the exception that
  ended it (\<open>None\<close> while it still waits in \<^verbatim>\<open>recv\<close>).
\<close>

fun receive_thread :: "('b, 'm) chess_lib \<Rightarrow> 'b \<Rightarrow> (exn + pystr) list \<Rightarrow> 'b \<times> exn option" where
  "receive_thread lib b [] = (b, None)"
| "receive_thread lib b (r # rs) =
     (case receive_step lib b r of
        Inl e \<Rightarrow> (b, Some e)
      | Inr b' \<Rightarrow> receive_thread lib b' rs)"

text \<open>One \<^verbatim>\<open>MOUSEBUTTONDOWN\<close> event of \<^verbatim>\<open>launch_online_game\<close>.\<close>

definition online_click ::
  "('b, 'm) chess_lib \<Rightarrow> (pystr \<Rightarrow> exn + pystr) \<Rightarrow> bool \<Rightarrow> pystr \<Rightarrow> ('b, 'm) game
     \<Rightarrow> int \<Rightarrow> int \<Rightarrow> 'b gui_call list \<times> ('b, 'm) game" where
  "online_click lib sock is_white opponent g x y =
     (if (turn lib (g_board g) = WHITE \<and> is_white) \<or> (turn lib (g_board g) = BLACK \<and> \<not> is_white)
      then (case click_square x y of
              None \<Rightarrow> ([], g)
            | Some sq \<Rightarrow>
                (case selected_square g of
                   None \<Rightarrow>
                     (case piece_at lib (g_board g) sq of
                        None \<Rightarrow> ([], g)
                      | Some p \<Rightarrow>
                          if snd p = turn lib (g_board g)
                          then ([], g\<lparr>selected_square := Some sq\<rparr>) else ([], g))
                 | Some sel \<Rightarrow>
                     (let move = Move lib sel sq
                      in if move \<in> set (legal_moves lib (g_board g))
                         then (fst (send_to_server sock (move_msg opponent (uci lib move))),
                               g\<lparr>g_board := push lib (g_board g) move,
                                 selected_square := None\<rparr>)
                         else ([], g\<lparr>selected_square := None\<rparr>))))
      else ([], g))"

text \<open>The event loop of one pass; \<^verbatim>\<open>QUIT\<close> clears \<^verbatim>\<open>running\<close> and leaves the \<^verbatim>\<open>for\<close>.\<close>

fun online_events ::
  "('b, 'm) chess_lib \<Rightarrow> (pystr \<Rightarrow> exn + pystr) \<Rightarrow> bool \<Rightarrow> pystr \<Rightarrow> ('b, 'm) game
     \<Rightarrow> event list \<Rightarrow> 'b gui_call list \<times> ('b, 'm) game" where
  "online_events lib sock is_white opponent g [] = ([], g)"
| "online_events lib sock is_white opponent g (QUIT # evs) = ([], g\<lparr>running := False\<rparr>)"
| "online_events lib sock is_white opponent g (MOUSEBUTTONDOWN x y # evs) =
     (let (eff, g') = online_click lib sock is_white opponent g x y;
          (effs, g'') = online_events lib sock is_white opponent g' evs
      in (eff @ effs, g''))"
| "online_events lib sock is_white opponent g (OtherEvent # evs) =
     online_events lib sock is_white opponent g evs"

text \<open>One pass of \<^verbatim>\<open>while running\<close> of \<^verbatim>\<open>launch_online_game\<close>.\<close>

definition online_iteration ::
  "('b, 'm) chess_lib \<Rightarrow> (pystr \<Rightarrow> exn + pystr) \<Rightarrow> pystr \<Rightarrow> bool \<Rightarrow> pystr \<Rightarrow> ('b, 'm) game
     \<Rightarrow> event list \<Rightarrow> 'b gui_call list \<times> ('b, 'm) game outcome" where
  "online_iteration lib sock username is_white opponent g evs =
     (let head = [Fill, DrawBoard (g_board g), Flip]
      in if is_game_over lib (g_board g)
         then (head
                 @ fst (send_to_server sock
                          (game_over_msg username opponent (result lib (g_board g))))
                 @ [Print (ascii ''Gra zako'' @ [324] @ ascii ''czona: '' @ result lib (g_board g))],
               Returned g)
         else (let (eff, g') = online_events lib sock is_white opponent g evs
               in (head @ eff, Running g')))"

text \<open>
  The main loop together with the receive thread. The two run concurrently on the same
  board; here the thread's work is placed between the passes of the main loop: before
  each pass it handles what it received since the last one. \<open>alive\<close> tells whether the
  thread still runs.
\<close>

fun online_loop ::
  "('b, 'm) chess_lib \<Rightarrow> (pystr \<Rightarrow> exn + pystr) \<Rightarrow> pystr \<Rightarrow> bool \<Rightarrow> pystr \<Rightarrow> bool
     \<Rightarrow> ('b, 'm) game \<Rightarrow> 'm frame list \<Rightarrow> 'b gui_call list \<times> ('b, 'm) game outcome" where
  "online_loop lib sock username is_white opponent alive g [] =
     (if running g then ([], Running g) else ([], Returned g))"
| "online_loop lib sock username is_white opponent alive g (fr # frs) =
     (if \<not> running g then ([], Returned g)
      else
        (let (b, ended) = (if alive then receive_thread lib (g_board g) (received fr)
                           else (g_board g, None));
             thread_eff = (case ended of
                             None \<Rightarrow> []
                           | Some e \<Rightarrow> [Print (blad @ ascii '' odbierania danych: '' @ str_exn e)]);
             alive' = (alive \<and> ended = None)
         in case online_iteration lib sock username is_white opponent (g\<lparr>g_board := b\<rparr>) (events fr) of
              (eff, Running g') \<Rightarrow>
                (let (effs, out) = online_loop lib sock username is_white opponent alive' g' frs
                 in (thread_eff @ eff @ effs, out))
            | (eff, out) \<Rightarrow> (thread_eff @ eff, out)))"

text \<open>\<^verbatim>\<open>launch_online_game\<close>; \<open>is_white\<close> is the test \<^verbatim>\<open>color.lower() == "white"\<close>.\<close>

definition launch_online_game ::
  "('b, 'm) chess_lib \<Rightarrow> (pystr \<Rightarrow> exn + pystr) \<Rightarrow> pystr \<Rightarrow> bool \<Rightarrow> pystr \<Rightarrow> 'm frame list
     \<Rightarrow> 'b gui_call list \<times> ('b, 'm) game outcome" where
  "launch_online_game lib sock username is_white opponent frames =
     online_loop lib sock username is_white opponent True
       \<lparr>g_board = new_board lib, selected_square = None, move_history = [], running = True\<rparr>
       frames"

text \<open>\<^verbatim>\<open>wait_for_match\<close> returns the fixed pair \<^verbatim>\<open>("white", "Przeciwnik1")\<close>.\<close>

definition wait_for_match :: "bool \<times> pystr" where
  "wait_for_match = (True, ascii ''Przeciwnik1'')"

text \<open>
  \<^verbatim>\<open>choose_opponent\<close>: each pass draws the menu, then the first event that decides
  something is acted on, by the button under the click.
\<close>

datatype choice = ChooseQuit | ChooseOnline | ChooseAI | ChooseCancel

fun choose_event :: "event list \<Rightarrow> choice option" where
  "choose_event [] = None"
| "choose_event (QUIT # evs) = Some ChooseQuit"
| "choose_event (MOUSEBUTTONDOWN x y # evs) =
     (if 250 \<le> x \<and> x \<le> 550
      then (if 120 \<le> y \<and> y \<le> 160 then Some ChooseOnline
            else if 180 \<le> y \<and> y \<le> 220 then Some ChooseAI
            else if 240 \<le> y \<and> y \<le> 280 then Some ChooseCancel
            else choose_event evs)
      else choose_event evs)"
| "choose_event (OtherEvent # evs) = choose_event evs"

fun choose_opponent ::
  "('b, 'm) chess_lib \<Rightarrow> (pystr \<Rightarrow> exn + pystr) \<Rightarrow> pystr \<Rightarrow> 'e option \<Rightarrow> 'm frame list
     \<Rightarrow> 'b gui_call list \<times> unit outcome" where
  "choose_opponent lib sock username wrapped [] = ([], Running ())"
| "choose_opponent lib sock username wrapped (fr # frs) =
     (let menu = [Fill, Blit (ascii ''Wybierz przeciwnika''), Blit (ascii ''Losowy gracz online''),
                  Blit (ascii ''Zagraj z botem (AI)''), Blit (ascii ''Anuluj''), Flip]
      in case choose_event (events fr) of
        None \<Rightarrow>
          (let (effs, out) = choose_opponent lib sock username wrapped frs
           in (menu @ effs, out))
      | Some ChooseQuit \<Rightarrow> (menu @ [PygameQuit], SysExit)
      | Some ChooseOnline \<Rightarrow>
          (let (color, opponent) = wait_for_match;
               (effs, out) = launch_online_game lib sock username color opponent frs
           in (menu @ fst (send_to_server sock start_match_msg)
                 @ [Print (ascii ''Oczekiwanie na przeciwnika...'')] @ effs,
               case out of
                 Running _ \<Rightarrow> Running ()
               | Returned _ \<Rightarrow> Returned ()
               | SysExit \<Rightarrow> SysExit
               | Raised e \<Rightarrow> Raised e))
      | Some ChooseAI \<Rightarrow>
          (let (effs, out) = play_against_ai lib wrapped frs
           in (menu @ effs,
               case out of
                 Running _ \<Rightarrow> Running ()
               | Returned _ \<Rightarrow> Returned ()
               | SysExit \<Rightarrow> SysExit
               | Raised e \<Rightarrow> Raised e))
      | Some ChooseCancel \<Rightarrow> (menu, Returned ()))"

text \<open>The data handed to \<^verbatim>\<open>client_socket.send\<close> in a trace, in order.\<close>

fun sent :: "'b gui_call list \<Rightarrow> pystr list" where
  "sent [] = []"
| "sent (Send m # cs) = m # sent cs"
| "sent (c # cs) = sent cs"

section \<open>A small library instance\<close>

text \<open>
  A concrete instance of the library interface, on which the definitions can be run: a
  board is the list of moves pushed so far, a move is \<open>64 * from + to\<close>. White may open
  with e2e4 (796) or g1f3 (405), Black may answer e7e5 (3364), and four moves end the game.
  The move 0 is the null move \<^verbatim>\<open>chess.Move.null()\<close>, from a1 to a1: it is falsy, its UCI
  text is \<^verbatim>\<open>0000\<close>, its SAN is \<^verbatim>\<open>--\<close> in every position, and it is never in
  \<^verbatim>\<open>legal_moves\<close>.
\<close>

definition ex_legal :: "nat list \<Rightarrow> nat list" where
  "ex_legal b = (if 4 \<le> length b then [] else if even (length b) then [796, 405] else [3364])"

definition ex_uci :: "nat \<Rightarrow> pystr" where
  "ex_uci m = (if m = 796 then ascii ''e2e4'' else if m = 405 then ascii ''g1f3''
               else if m = 3364 then ascii ''e7e5'' else ascii ''0000'')"

definition ex_parse_uci :: "nat list \<Rightarrow> pystr \<Rightarrow> exn + nat" where
  "ex_parse_uci b s =
     (if s = ascii ''e2e4'' then Inr 796 else if s = ascii ''g1f3'' then Inr 405
      else if s = ascii ''e7e5'' then Inr 3364
      else Inl (Exception (ascii ''invalid uci'')))"

definition ex_parse_san :: "nat list \<Rightarrow> pystr \<Rightarrow> exn + nat" where
  "ex_parse_san b s =
     (if s = ascii ''e4'' then Inr 796 else if s = ascii ''Nf3'' then Inr 405
      else if s = ascii ''e5'' then Inr 3364
      else Inl (Exception (ascii ''invalid san'')))"

definition ex_san :: "nat list \<Rightarrow> nat \<Rightarrow> exn + pystr" where
  "ex_san b m =
     (if m = 796 then Inr (ascii ''e4'') else if m = 405 then Inr (ascii ''Nf3'')
      else if m = 3364 then Inr (ascii ''e5'')
      else if m = 0 then Inr (ascii ''--'')
      else Inl (Exception (ascii ''san() expects move to be legal'')))"

definition ex_push_uci :: "nat list \<Rightarrow> pystr \<Rightarrow> exn + nat list" where
  "ex_push_uci b s =
     (case ex_parse_uci b s of
        Inl e \<Rightarrow> Inl e
      | Inr m \<Rightarrow> if m \<in> set (ex_legal b) then Inr (b @ [m])
                 else Inl (Exception (ascii ''illegal uci'')))"

definition ex_piece_at :: "nat list \<Rightarrow> nat \<Rightarrow> piece option" where
  "ex_piece_at b sq =
     (if sq = 4 then Some (6, True) else if sq = 60 then Some (6, False)
      else if sq = 12 \<and> 796 \<notin> set b then Some (1, True)
      else if sq = 28 \<and> 796 \<in> set b then Some (1, True)
      else None)"

definition ex_lib :: "(nat list, nat) chess_lib" where
  "ex_lib =
     \<lparr>new_board = [],
      push = (\<lambda>b m. b @ [m]),
      legal_moves = ex_legal,
      san = ex_san,
      san_none = (\<lambda>b. Exception (ascii ''NoneType object has no attribute from_square'')),
      parse_uci = ex_parse_uci,
      parse_san = ex_parse_san,
      push_uci = ex_push_uci,
      piece_at = ex_piece_at,
      piece_map = (\<lambda>b. [(4, (6, True)), (60, (6, False)), (if 796 \<in> set b then 28 else 12, (1, True))]),
      turn = (\<lambda>b. even (length b)),
      is_game_over = (\<lambda>b. 4 \<le> length b),
      result = (\<lambda>b. ascii ''1/2-1/2''),
      Move = (\<lambda>f t. 64 * f + t),
      uci = ex_uci,
      move_bool = (\<lambda>m. m \<noteq> 0)\<rparr>"

definition ex_syzygy :: "(nat list, unit) syzygy_lib" where
  "ex_syzygy =
     \<lparr>open_tablebase = (\<lambda>p. if p = ascii ''tb'' then Inr () else Inl (Exception (ascii ''no such directory''))),
      probe_wdl = (\<lambda>tb b. Inr 0)\<rparr>"

text \<open>A tablebase directory that opens but holds no table for the position.\<close>

definition ex_syzygy_missing :: "(nat list, unit) syzygy_lib" where
  "ex_syzygy_missing =
     \<lparr>open_tablebase = (\<lambda>p. Inr ()),
      probe_wdl = (\<lambda>tb b. Inl (Exception (ascii ''missing table'')))\<rparr>"

definition ex_app :: "(nat list, unit) ChessApp" where
  "ex_app =
     \<lparr>board = [], engine = Some (), tb_path = None, human_color = WHITE, move_count = 1,
      last_move_white = ascii ''-'', last_move_black = ascii ''-'', input_line = [],
      best_eval_str = ascii ''---'', analysis_variants = [], status_msg = [],
      syzygy_calls = []\<rparr>"

text \<open>
  A server that answers every message with \<^verbatim>\<open>OK\<close>, a game in which White has selected e2,
  and one pass of a game loop in which the player clicks e2 and then e4.
\<close>

definition ex_sock :: "pystr \<Rightarrow> exn + pystr" where
  "ex_sock data = Inr (ascii ''OK'')"

definition ex_game :: "(nat list, nat) game" where
  "ex_game = \<lparr>g_board = [], selected_square = Some 12, move_history = [], running = True\<rparr>"

definition ex_frame :: "nat frame" where
  "ex_frame =
     \<lparr>events = [MOUSEBUTTONDOWN 401 429, MOUSEBUTTONDOWN 401 301],
      engine_reply = Inr (Some 3364), random_index = 0, received = []\<rparr>"

text \<open>
  A pass with the single click on e4, a pass with a click on the online button of the
  opponent menu, a game that has just started, and a game that is over.
\<close>

definition ex_click_frame :: "nat frame" where
  "ex_click_frame =
     \<lparr>events = [MOUSEBUTTONDOWN 401 301],
      engine_reply = Inr None, random_index = 1, received = []\<rparr>"

definition ex_menu_frame :: "nat frame" where
  "ex_menu_frame =
     \<lparr>events = [OtherEvent, MOUSEBUTTONDOWN 300 130],
      engine_reply = Inr None, random_index = 0, received = []\<rparr>"

text \<open>A pass in which the engine answers \<^verbatim>\<open>bestmove 0000\<close>, the null move.\<close>

definition ex_null_frame :: "nat frame" where
  "ex_null_frame =
     \<lparr>events = [], engine_reply = Inr (Some 0), random_index = 0, received = []\<rparr>"



definition ex_final :: "(nat list, nat) game" where
  "ex_final =
     \<lparr>g_board = [796, 3364, 405, 3364], selected_square = None, move_history = [],
      running = True\<rparr>"

section \<open>Proofs: the evaluation thermometer\<close>

subsection \<open>Rounding to binary64\<close>

lemma pow2_powi: "pow2 n = 2 powi n"
  by (simp add: pow2_def power_int_def power_one_over inverse_eq_divide)

lemma pow2_pos: "0 < pow2 n"
  by (simp add: pow2_powi)

lemma pow2_mono: "m \<le> n \<Longrightarrow> pow2 m \<le> pow2 n"
  by (simp add: pow2_powi power_int_increasing)

lemma round_half_even_near: "\<bar>of_int (round_half_even x) - x\<bar> \<le> 1 / 2"
proof -
  have "of_int \<lfloor>x\<rfloor> \<le> x" "x < of_int \<lfloor>x\<rfloor> + 1" by linarith+
  then show ?thesis
    unfolding round_half_even_def Let_def by (simp split: if_splits)
qed

lemma ilog2_le_bitlen:
  "ilog2 x \<le> bitlen (fst (quotient_of \<bar>x\<bar>)) - bitlen (snd (quotient_of \<bar>x\<bar>))"
  unfolding ilog2_def Let_def by (auto split: prod.splits)

lemma bitlen_mono: "a \<le> b \<Longrightarrow> bitlen a \<le> bitlen b"
  unfolding bitlen_def using floorlog_mono[of "nat a" "nat b" 2] by simp

lemma ilog2_le3:
  assumes "\<bar>x\<bar> \<le> 8"
  shows "ilog2 x \<le> 3"
proof -
  obtain p q where pq: "quotient_of \<bar>x\<bar> = (p, q)" by (cases "quotient_of \<bar>x\<bar>")
  then have q: "0 < q" and x: "\<bar>x\<bar> = of_int p / of_int q"
    using quotient_of_denom_pos quotient_of_div by blast+
  from assms x q have "of_int p \<le> (8::rat) * of_int q"
    by (simp add: pos_divide_le_eq)
  then have "p \<le> 8 * q" by (metis of_int_le_iff of_int_mult of_int_numeral)
  then have "p \<le> q * 2 ^ 3" by simp
  then have "bitlen p \<le> bitlen (q * 2 ^ 3)"
    by (rule bitlen_mono)
  also have "\<dots> = bitlen q + 3" using bitlen_pow2[OF q, of 3] by (simp only: of_nat_numeral)
  finally show ?thesis using ilog2_le_bitlen[of x] pq by simp
qed

lemma fl64_near:
  assumes "\<bar>x\<bar> \<le> 8"
  shows "\<exists>r. fl64 x = Some r \<and> \<bar>r - x\<bar> \<le> 1 / 2 ^ 50"
proof (cases "x = 0")
  case True
  then show ?thesis by (simp add: fl64_def)
next
  case False
  define e where "e = max (ilog2 x) (- 1022)"
  define q where "q = pow2 (e - 52)"
  define r where "r = of_int (round_half_even (x / q)) * q"
  have e: "e \<le> 3" using ilog2_le3[OF assms] by (simp add: e_def)
  have qpos: "0 < q" by (simp add: q_def pow2_pos)
  have "q \<le> pow2 (- 49)" unfolding q_def using e by (intro pow2_mono) simp
  then have qle: "q \<le> 1 / 2 ^ 49" by (simp add: pow2_def)
  have "r - x = (of_int (round_half_even (x / q)) - x / q) * q"
    using qpos by (simp add: r_def left_diff_distrib)
  then have "\<bar>r - x\<bar> = \<bar>of_int (round_half_even (x / q)) - x / q\<bar> * q"
    using qpos by (simp add: abs_mult)
  also have "\<dots> \<le> 1 / 2 * q"
    using round_half_even_near[of "x / q"] qpos by (intro mult_right_mono) simp_all
  also have "\<dots> \<le> 1 / 2 ^ 50" using qle by simp
  finally have near: "\<bar>r - x\<bar> \<le> 1 / 2 ^ 50" .
  have "(1::rat) / 2 ^ 50 \<le> 1" by simp
  with near have "\<bar>r\<bar> \<le> 9" using assms by linarith
  moreover have "(9::rat) < pow2 1024" by (simp add: pow2_def)
  ultimately have "\<not> pow2 1024 \<le> \<bar>r\<bar>" by linarith
  then have "fl64 x = Some r"
    using False by (simp add: fl64_def Let_def e_def q_def r_def)
  with near show ?thesis by blast
qed

lemma round_half_even_eq:
  assumes "of_int n - 1 / 2 < z" "z < of_int n + 1 / 2"
  shows "round_half_even z = n"
proof (cases "of_int n \<le> z")
  case True
  then have "\<lfloor>z\<rfloor> = n" using assms by (intro floor_unique) linarith+
  then show ?thesis using assms by (simp add: round_half_even_def Let_def)
next
  case False
  then have "\<lfloor>z\<rfloor> = n - 1" using assms by (intro floor_unique) (simp, linarith)+
  then show ?thesis using assms by (simp add: round_half_even_def Let_def)
qed

lemma round_half_even_stable:
  assumes far: "\<And>k::int. d \<le> \<bar>x - (of_int k + 1 / 2)\<bar>" and near: "\<bar>y - x\<bar> < d"
  shows "round_half_even y = round_half_even x"
proof -
  define n where "n = \<lfloor>x + 1 / 2\<rfloor>"
  have n: "of_int n \<le> x + 1 / 2" "x + 1 / 2 < of_int n + 1"
    unfolding n_def by linarith+
  have "0 < d" using near by linarith
  from far[of "n - 1"] have "d \<le> \<bar>x - (of_int n - 1 / 2)\<bar>" by simp
  with n have lo: "of_int n - 1 / 2 + d \<le> x" by linarith
  from far[of n] n have hi: "x \<le> of_int n + 1 / 2 - d" by linarith
  have "round_half_even y = n" using lo hi near by (intro round_half_even_eq) linarith+
  moreover have "round_half_even x = n" using lo hi \<open>0 < d\<close> by (intro round_half_even_eq) linarith+
  ultimately show ?thesis by simp
qed

lemma no_half:
  fixes c k :: int
  assumes eq: "7 * c = 300 * k + 150" and "- 300 \<le> c" "c \<le> 300"
  shows "c = 150 \<or> c = - 150"
proof -
  from assms have "- 7 \<le> k" "k \<le> 6" by linarith+
  then have "k \<in> set [- 7..6]" by (simp only: set_upto atLeastAtMost_iff)
  moreover have "[- 7..6::int] = [- 7, - 6, - 5, - 4, - 3, - 2, - 1, 0, 1, 2, 3, 4, 5, 6]"
    by code_simp
  ultimately have "k \<in> {- 7, - 6, - 5, - 4, - 3, - 2, - 1, 0, 1, 2, 3, 4, 5, 6}"
    by (simp only: list.set)
  then show ?thesis
  proof (elim insertE emptyE)
    assume "k = - 4" with eq show ?thesis by simp
  next
    assume "k = 3" with eq show ?thesis by simp
  qed (use eq in presburger)+
qed


lemma half_far:
  fixes c k :: int
  assumes "- 300 \<le> c" "c \<le> 300" "c \<noteq> 150" "c \<noteq> - 150"
  shows "1 / 300 \<le> \<bar>of_int c * 7 / 300 - (of_int k + 1 / 2 :: rat)\<bar>"
proof -
  define N where "N = 7 * c - 300 * k - 150"
  have "N \<noteq> 0"
  proof
    assume "N = 0"
    then have "7 * c = 300 * k + 150" by (simp add: N_def)
    from no_half[OF this assms(1,2)] assms(3,4) show False by simp
  qed
  then have "1 \<le> \<bar>N\<bar>" by linarith
  then have "(1::rat) \<le> \<bar>of_int N\<bar>" by (metis of_int_1 of_int_abs of_int_le_iff)
  then have "(1::rat) / 300 \<le> \<bar>of_int N\<bar> / 300" by (rule divide_right_mono) simp
  moreover have "of_int c * 7 / 300 - (of_int k + 1 / 2 :: rat) = of_int N / 300"
    by (simp add: N_def field_simps)
  ultimately show ?thesis by (simp only: abs_divide abs_numeral)
qed

lemma round_half_even_of_int: "round_half_even (of_int n) = n"
  by (simp add: round_half_even_def)

lemma fl64_half_int:
  assumes "\<bar>x\<bar> \<le> 8" and x: "x = of_int m / 2"
  shows "fl64 x = Some x"
proof (cases "x = 0")
  case True
  then show ?thesis by (simp add: fl64_def)
next
  case False
  define e where "e = max (ilog2 x) (- 1022)"
  define q where "q = pow2 (e - 52)"
  define n where "n = m * 2 ^ nat (51 - e)"
  have e: "e \<le> 3" using ilog2_le3[OF assms(1)] by (simp add: e_def)
  have qpos: "0 < q" by (simp add: q_def pow2_pos)
  have "pow2 (52 - e) = 2 * 2 ^ nat (51 - e)"
    using e by (simp add: pow2_def nat_diff_distrib flip: power_Suc)
  moreover have "q * pow2 (52 - e) = 1"
    unfolding q_def pow2_powi by (simp flip: power_int_add)
  ultimately have "x * 2 = of_int m * (q * (2 * 2 ^ nat (51 - e)))"
    by (simp add: x)
  then have "x = of_int n * q"
    by (simp add: n_def)
  then have xq: "x / q = of_int n"
    using qpos by simp
  have "of_int (round_half_even (x / q)) * q = x"
    unfolding xq round_half_even_of_int using \<open>x = of_int n * q\<close> by simp
  have "\<not> pow2 1024 \<le> \<bar>x\<bar>"
  proof -
    have "(8::rat) < pow2 1024" by (simp add: pow2_def)
    with assms(1) show ?thesis by linarith
  qed
  with \<open>of_int (round_half_even (x / q)) * q = x\<close> show ?thesis
    using False by (simp add: fl64_def Let_def e_def q_def)
qed

lemma offset_float_exact:
  fixes c :: int
  assumes "- 300 \<le> c" "c \<le> 300"
  shows "\<exists>a b. fl64 (of_int c / 300) = Some a \<and> fl64 (a * 7) = Some b
           \<and> round_half_even b = round_half_even (of_int c / 300 * 7)"
proof (cases "c = 150 \<or> c = - 150")
  case True
  define h :: rat where "h = of_int c / 300"
  have h: "h = of_int (c div 150) / 2" "\<bar>h\<bar> \<le> 8" "h * 7 = of_int (c div 150 * 7) / 2" "\<bar>h * 7\<bar> \<le> 8"
    using True by (auto simp: h_def)
  have "fl64 h = Some h" using fl64_half_int[OF h(2,1)] .
  moreover have "fl64 (h * 7) = Some (h * 7)" using fl64_half_int[OF h(4,3)] .
  ultimately have "fl64 h = Some h \<and> fl64 (h * 7) = Some (h * 7)
      \<and> round_half_even (h * 7) = round_half_even (h * 7)" by simp
  then show ?thesis unfolding h_def by (intro exI)
next
  case False
  define x :: rat where "x = of_int c / 300"
  have cx: "\<bar>x\<bar> \<le> 1" using assms by (simp add: x_def abs_le_iff)
  then obtain a where a: "fl64 x = Some a" "\<bar>a - x\<bar> \<le> 1 / 2 ^ 50"
    using fl64_near[of x] by auto
  define u :: rat where "u = 1 / 2 ^ 50"
  have u: "u \<le> 1 / 7" "8 * u < 1 / 300" by (simp_all add: u_def)
  from a(2) u(1) cx have "\<bar>a\<bar> \<le> 8 / 7" unfolding u_def[symmetric] by linarith
  then have "\<bar>a * 7\<bar> \<le> 8" by (simp add: abs_mult)
  then obtain b where b: "fl64 (a * 7) = Some b" "\<bar>b - a * 7\<bar> \<le> 1 / 2 ^ 50"
    using fl64_near[of "a * 7"] by auto
  from a(2) b(2) u(2) have near: "\<bar>b - x * 7\<bar> < 1 / 300"
    unfolding u_def[symmetric] by linarith
  have far: "\<And>k::int. 1 / 300 \<le> \<bar>x * 7 - (of_int k + 1 / 2)\<bar>"
    using half_far[OF assms] False by (simp add: x_def)
  from round_half_even_stable[OF far near] a(1) b(1) show ?thesis unfolding x_def by blast
qed

subsection \<open>The bar\<close>

lemma round_half_even_bounds:
  assumes "\<bar>x\<bar> \<le> of_int n"
  shows "- n \<le> round_half_even x \<and> round_half_even x \<le> n"
proof -
  define r where "r = round_half_even x"
  have near: "\<bar>of_int r - x\<bar> \<le> 1 / 2" unfolding r_def by (rule round_half_even_near)
  have "r \<le> n"
  proof (rule ccontr)
    assume "\<not> r \<le> n"
    then have "n + 1 \<le> r" by simp
    then have "(of_int n :: rat) + 1 \<le> of_int r" by (metis of_int_1 of_int_add of_int_le_iff)
    with near assms show False by linarith
  qed
  moreover have "- n \<le> r"
  proof (rule ccontr)
    assume "\<not> - n \<le> r"
    then have "r + 1 \<le> - n" by simp
    then have "(of_int r :: rat) + 1 \<le> - of_int n"
      by (metis of_int_1 of_int_add of_int_le_iff of_int_minus)
    with near assms show False by linarith
  qed
  ultimately show ?thesis by (simp add: r_def)
qed

lemma map_const_upto:
  assumes "\<And>i. i \<in> set [a..b] \<Longrightarrow> f i = v"
  shows "map f [a..b] = replicate (nat (b - a + 1)) v"
proof -
  have "map f [a..b] = map (\<lambda>_. v) [a..b]" using assms by (intro map_cong) simp_all
  then show ?thesis by (simp add: map_replicate_const)
qed

lemma thermometer_bar_shape:
  assumes "0 \<le> m" "m < len"
  shows "thermometer_bar m len = replicate (nat m) 45 @ [9608] @ replicate (nat (len - 1 - m)) 45"
proof -
  let ?f = "\<lambda>i. if i = m then 9608 else (45::nat)"
  have split: "[0..len - 1] = [0..m - 1] @ m # [m + 1..len - 1]"
    using assms by (intro upto_split3) simp_all
  have lo: "map ?f [0..m - 1] = replicate (nat m) 45"
    using map_const_upto[of 0 "m - 1" ?f 45] by simp
  have hi: "map ?f [m + 1..len - 1] = replicate (nat (len - 1 - m)) 45"
    using map_const_upto[of "m + 1" "len - 1" ?f 45] by (simp add: algebra_simps)
  show ?thesis unfolding thermometer_bar_def split using lo hi by simp
qed

lemma marker_spec_range: "0 \<le> marker_spec cp \<and> marker_spec cp < 15"
proof -
  define c where "c = max (- 300) (min cp 300)"
  have c: "- 300 \<le> c" "c \<le> 300" by (simp_all add: c_def)
  then have "\<bar>of_int c / 300 * 7 :: rat\<bar> \<le> of_int 7" by (simp add: abs_le_iff)
  from round_half_even_bounds[OF this] show ?thesis
    by (simp add: marker_spec_def c_def)
qed

lemma fl64_seven: "fl64 7 = Some 7"
proof -
  have "\<bar>7::rat\<bar> \<le> 8" by simp
  moreover have "(7::rat) = of_int 14 / 2" by simp
  ultimately show ?thesis by (rule fl64_half_int)
qed

lemma int_true_div_300:
  "fl64 (of_int c / 300) = Some a \<Longrightarrow> int_true_div c 300 = Inr a"
  by (simp add: int_true_div_def)

lemma float_of_int_seven: "float_of_int 7 = Inr 7"
  using fl64_seven by (simp add: float_of_int_def)

lemma py_round_float_mul:
  "fl64 (a * 7) = Some b \<Longrightarrow> py_round (float_mul a 7) = Inr (round_half_even b)"
  by (simp add: py_round_def float_mul_def)

lemma generate_thermometer_marker:
  "generate_thermometer cp 300 15 = Inr ([91] @ thermometer_bar (marker_spec cp) 15 @ [93])"
proof -
  define c where "c = max (- 300) (min cp 300)"
  have c: "- 300 \<le> c" "c \<le> 300" by (simp_all add: c_def)
  from offset_float_exact[OF c] obtain a b where ab:
    "fl64 (of_int c / 300) = Some a" "fl64 (a * 7) = Some b"
    "round_half_even b = round_half_even (of_int c / 300 * 7)" by blast
  have d: "(15::int) div 2 = 7" by simp
  have 1: "int_true_div c 300 = Inr a" using ab(1) by (rule int_true_div_300)
  have 2: "py_round (float_mul a 7) = Inr (round_half_even b)"
    using ab(2) by (rule py_round_float_mul)
  have "generate_thermometer cp 300 15
          = Inr ([91] @ thermometer_bar (7 + round_half_even b) 15 @ [93])"
    unfolding generate_thermometer_def Let_def d c_def[symmetric] 1 float_of_int_seven
    by (simp add: 2)
  moreover have "marker_spec cp = 7 + round_half_even b"
    unfolding marker_spec_def d c_def[symmetric] ab(3) by simp
  ultimately show ?thesis by simp
qed

text \<open>
  C9. For every integer \<open>cp\<close> and the default parameters, \<^verbatim>\<open>generate_thermometer\<close> returns (it
  raises nothing) a string of exactly 17 characters that starts with \<open>[\<close> (91), ends with
  \<open>]\<close> (93) and holds exactly one marker (9608); the marker's index within the bar is
  \<open>length//2 + round(clamp(cp, -300, 300)/300 * (length//2))\<close>, computed exactly, and lies
  inside the bar. The floating-point computation of the source and the exact formula agree
  for every \<open>cp\<close>.
\<close>

theorem generate_thermometer_default:
  "\<exists>s bar. generate_thermometer cp 300 15 = Inr s \<and> s = [91] @ bar @ [93]
      \<and> length s = 17 \<and> hd s = 91 \<and> last s = 93 \<and> count_list s 9608 = 1
      \<and> 0 \<le> marker_spec cp \<and> marker_spec cp < 15
      \<and> bar = replicate (nat (marker_spec cp)) 45 @ [9608] @ replicate (14 - nat (marker_spec cp)) 45
      \<and> bar ! nat (marker_spec cp) = 9608"
proof -
  define m where "m = marker_spec cp"
  have m: "0 \<le> m" "m < 15" using marker_spec_range[of cp] by (simp_all add: m_def)
  define bar where "bar = replicate (nat m) 45 @ [9608::nat] @ replicate (14 - nat m) 45"
  have shape: "thermometer_bar m 15 = bar"
    using thermometer_bar_shape[OF m] m by (simp add: bar_def nat_diff_distrib)
  have len: "length bar = 15" using m by (simp add: bar_def)
  have cnt: "count_list bar 9608 = 1" by (simp add: bar_def count_list_append)
  have nth: "bar ! nat m = 9608" by (simp add: bar_def nth_append)
  have "generate_thermometer cp 300 15 = Inr ([91] @ bar @ [93])"
    using generate_thermometer_marker[of cp] shape by (simp add: m_def)
  with len cnt nth m show ?thesis
    unfolding m_def[symmetric] bar_def[symmetric] by (simp add: count_list_append)
qed

theorem generate_thermometer_default_witness:
  "\<exists>s. generate_thermometer 100 300 15 = Inr s \<and> length s = 17 \<and> count_list s 9608 = 1"
  using generate_thermometer_default[of 100] by blast

section \<open>Proofs: parsing the player's move\<close>

lemma not_space_full_stop: "\<not> is_space 46"
  by (simp add: is_space_def)

lemma in_set_dropWhile: "x \<in> set xs \<Longrightarrow> \<not> P x \<Longrightarrow> x \<in> set (dropWhile P xs)"
  by (induction xs) auto

lemma set_rstrip: "x \<in> set s \<Longrightarrow> \<not> is_space x \<Longrightarrow> x \<in> set (rstrip s)"
  by (simp add: rstrip_def in_set_dropWhile)

lemma set_strip_iff: "\<not> is_space x \<Longrightarrow> x \<in> set (strip s) \<longleftrightarrow> x \<in> set s"
proof
  assume "x \<in> set (strip s)"
  then have "x \<in> set (dropWhile is_space s)"
    unfolding strip_def rstrip_def by (auto dest: set_dropWhileD)
  then show "x \<in> set s" by (rule set_dropWhileD)
next
  assume "\<not> is_space x" "x \<in> set s"
  then show "x \<in> set (strip s)"
    unfolding strip_def by (intro set_rstrip in_set_dropWhile)
qed

lemma last_rstrip: "rstrip s \<noteq> [] \<Longrightarrow> \<not> is_space (last (rstrip s))"
  unfolding rstrip_def using hd_dropWhile[of is_space "rev s"]
  by (simp add: last_rev)

lemma last_strip: "strip s \<noteq> [] \<Longrightarrow> \<not> is_space (last (strip s))"
  unfolding strip_def by (rule last_rstrip)

lemma split_ws_from_last:
  assumes "\<forall>c\<in>set cur. \<not> is_space c" "cur @ s \<noteq> []" "\<not> is_space (last (cur @ s))"
  shows "split_ws_from cur s \<noteq> []
         \<and> last (split_ws_from cur s) = last_word (cur @ s)"
  using assms
proof (induction s arbitrary: cur)
  case Nil
  then have tw: "takeWhile (\<lambda>c. \<not> is_space c) (rev cur) = rev cur"
    by (simp add: takeWhile_eq_all_conv)
  from Nil show ?case by (simp add: last_word_def tw)
next
  case (Cons c cs)
  show ?case
  proof (cases "is_space c")
    case True
    with Cons.prems have cs: "cs \<noteq> []" by auto
    with Cons.prems have "\<not> is_space (last ([] @ cs))" by simp
    with cs Cons.IH[of "[]"] have IH: "split_ws_from [] cs \<noteq> []"
      "last (split_ws_from [] cs) = last_word cs" by simp_all
    have "last_word (cur @ c # cs) = last_word cs"
      using True by (simp add: last_word_def takeWhile_tail)
    with IH True show ?thesis by simp
  next
    case False
    with Cons.prems Cons.IH[of "cur @ [c]"] show ?thesis by simp
  qed
qed

lemma last_word_props:
  assumes "s \<noteq> []" "\<not> is_space (last s)"
  shows "last_word s \<noteq> []" "\<forall>c\<in>set (last_word s). \<not> is_space c"
proof -
  from assms have "rev s \<noteq> []" "\<not> is_space (hd (rev s))" by (simp_all add: hd_rev)
  then show "last_word s \<noteq> []"
    by (cases "rev s") (simp_all add: last_word_def)
  show "\<forall>c\<in>set (last_word s). \<not> is_space c"
    by (auto simp: last_word_def dest: set_takeWhileD)
qed

lemma move_token_full_stop:
  assumes "46 \<in> set user_input"
  shows "move_token user_input = last_word (strip user_input)"
    and "move_token user_input \<noteq> []"
    and "\<forall>c\<in>set (move_token user_input). \<not> is_space c"
proof -
  let ?s = "strip user_input"
  from assms have dot: "46 \<in> set ?s" by (simp add: set_strip_iff not_space_full_stop)
  then have ne: "?s \<noteq> []" by auto
  then have sp: "\<not> is_space (last ?s)" by (rule last_strip)
  from split_ws_from_last[of "[]" ?s] ne sp
  have "split_ws ?s \<noteq> []" "last (split_ws ?s) = last_word ?s"
    by (simp_all add: split_ws_def)
  with dot show eq: "move_token user_input = last_word ?s"
    by (simp add: move_token_def Let_def)
  from last_word_props[OF ne sp] eq
  show "move_token user_input \<noteq> []" "\<forall>c\<in>set (move_token user_input). \<not> is_space c"
    by simp_all
qed

lemma move_token_plain: "46 \<notin> set user_input \<Longrightarrow> move_token user_input = strip user_input"
  by (simp add: move_token_def Let_def set_strip_iff not_space_full_stop)

text \<open>
  C10. \<^verbatim>\<open>parse_move\<close> hands the parsers the stripped input, cut to its last
  whitespace-separated token whenever the input holds a full stop (the token is then not
  empty and free of whitespace). It calls \<^verbatim>\<open>parse_uci\<close> on that text first and returns its move
  when it succeeds, without calling \<^verbatim>\<open>parse_san\<close>, so a text valid in both notations is
  read as UCI; \<^verbatim>\<open>parse_san\<close> is called, on the same text, only when \<^verbatim>\<open>parse_uci\<close> raised.
\<close>

theorem parse_move_uci_first:
  "(46 \<in> set user_input \<longrightarrow>
      move_token user_input = last_word (strip user_input)
      \<and> move_token user_input \<noteq> []
      \<and> (\<forall>c\<in>set (move_token user_input). \<not> is_space c))
   \<and> (46 \<notin> set user_input \<longrightarrow> move_token user_input = strip user_input)
   \<and> (\<forall>mv. parse_uci lib b (move_token user_input) = Inr mv \<longrightarrow>
         parse_move_calls lib user_input b = ([ParseUci (move_token user_input)], Inr mv)
         \<and> parse_move lib user_input b = Inr mv)
   \<and> (\<forall>e. parse_uci lib b (move_token user_input) = Inl e \<longrightarrow>
         parse_move_calls lib user_input b
           = ([ParseUci (move_token user_input), ParseSan (move_token user_input)],
              parse_san lib b (move_token user_input))
         \<and> parse_move lib user_input b = parse_san lib b (move_token user_input))"
  using move_token_full_stop[of user_input] move_token_plain[of user_input]
  by (simp add: parse_move_def parse_move_calls_def Let_def)

lemma ex_move_token:
  "move_token (ascii ''1. e2e4'') = ascii ''e2e4''" "move_token (ascii ''e4'') = ascii ''e4''"
  by (simp_all add: move_token_def strip_def rstrip_def split_ws_def is_space_def ascii_def Let_def)

lemma ex_parse:
  "parse_uci ex_lib b (ascii ''e2e4'') = Inr 796"
  "parse_uci ex_lib b (ascii ''e4'') = Inl (Exception (ascii ''invalid uci''))"
  "parse_uci ex_lib b (ascii ''e7e5'') = Inr 3364"
  "parse_san ex_lib b (ascii ''e4'') = Inr 796"
  by (simp_all add: ex_lib_def ex_parse_uci_def ex_parse_san_def ascii_def)

theorem parse_move_uci_first_witness:
  "46 \<in> set (ascii ''1. e2e4'')
   \<and> move_token (ascii ''1. e2e4'') = ascii ''e2e4''
   \<and> parse_uci ex_lib [] (ascii ''e2e4'') = Inr 796
   \<and> parse_move_calls ex_lib (ascii ''1. e2e4'') [] = ([ParseUci (ascii ''e2e4'')], Inr 796)
   \<and> 46 \<notin> set (ascii ''e4'')
   \<and> parse_uci ex_lib [] (move_token (ascii ''e4'')) = Inl (Exception (ascii ''invalid uci''))
   \<and> parse_move_calls ex_lib (ascii ''e4'') []
         = ([ParseUci (ascii ''e4''), ParseSan (ascii ''e4'')], Inr 796)"
proof -
  have dot: "46 \<in> set (ascii ''1. e2e4'')" "46 \<notin> set (ascii ''e4'')"
    by (simp_all add: ascii_def)
  from parse_move_uci_first[of "ascii ''1. e2e4''" ex_lib "[]", unfolded ex_move_token]
       ex_parse(1)[of "[]"]
  have c1: "parse_move_calls ex_lib (ascii ''1. e2e4'') [] = ([ParseUci (ascii ''e2e4'')], Inr 796)"
    by blast
  from parse_move_uci_first[of "ascii ''e4''" ex_lib "[]", unfolded ex_move_token]
       ex_parse(2)[of "[]"]
  have c2: "parse_move_calls ex_lib (ascii ''e4'') []
              = ([ParseUci (ascii ''e4''), ParseSan (ascii ''e4'')], parse_san ex_lib [] (ascii ''e4''))"
    by blast
  show ?thesis unfolding ex_move_token c1 c2 using dot by (simp add: ex_parse)
qed

section \<open>Proofs: the curses front-end\<close>

lemma blad_nonempty: "blad @ s \<noteq> []"
  by (simp add: blad_def)

text \<open>
  C2. When \<^verbatim>\<open>handle_player_move\<close> fails, because \<^verbatim>\<open>parse_move\<close> raised or because the
  parsed move is not in \<^verbatim>\<open>board.legal_moves\<close>, the board, \<^verbatim>\<open>move_count\<close>,
  \<^verbatim>\<open>last_move_white\<close> and \<^verbatim>\<open>last_move_black\<close> are as before (only \<^verbatim>\<open>status_msg\<close> differs),
  \<^verbatim>\<open>status_msg\<close> is a non-empty error text, and the function returns: every statement of
  its body is inside the \<^verbatim>\<open>try\<close>, so the model has no exceptional result.
\<close>

theorem handle_player_move_failure:
  "(parse_move lib user_input (board app) = Inl e \<longrightarrow>
      handle_player_move lib syz app user_input
        = app\<lparr>status_msg := blad @ ascii '' ruchu: '' @ str_exn e\<rparr>)
   \<and> (parse_move lib user_input (board app) = Inr mv \<and> mv \<notin> set (legal_moves lib (board app)) \<longrightarrow>
      handle_player_move lib syz app user_input = app\<lparr>status_msg := ascii ''Nielegalny ruch.''\<rparr>)
   \<and> (parse_move lib user_input (board app) = Inl e
        \<or> (parse_move lib user_input (board app) = Inr mv \<and> mv \<notin> set (legal_moves lib (board app))) \<longrightarrow>
      board (handle_player_move lib syz app user_input) = board app
      \<and> move_count (handle_player_move lib syz app user_input) = move_count app
      \<and> last_move_white (handle_player_move lib syz app user_input) = last_move_white app
      \<and> last_move_black (handle_player_move lib syz app user_input) = last_move_black app
      \<and> status_msg (handle_player_move lib syz app user_input) \<noteq> []
      \<and> handle_player_move lib syz app user_input
           = app\<lparr>status_msg := status_msg (handle_player_move lib syz app user_input)\<rparr>)"
  by (auto simp: handle_player_move_def blad_nonempty ascii_def)

lemma ex_parse_move:
  "parse_move ex_lib (ascii ''zz'') (board ex_app) = Inl (Exception (ascii ''invalid san''))"
  "parse_move ex_lib (ascii ''e7e5'') (board ex_app) = Inr 3364"
  by (simp_all add: parse_move_def parse_move_calls_def move_token_def strip_def rstrip_def
        is_space_def ascii_def Let_def ex_lib_def ex_parse_uci_def ex_parse_san_def)

lemma ex_not_legal: "3364 \<notin> set (legal_moves ex_lib (board ex_app))"
  by (simp add: ex_app_def ex_lib_def ex_legal_def)

theorem handle_player_move_failure_witness:
  "parse_move ex_lib (ascii ''zz'') (board ex_app) = Inl (Exception (ascii ''invalid san''))
   \<and> handle_player_move ex_lib ex_syzygy ex_app (ascii ''zz'')
       = ex_app\<lparr>status_msg := blad @ ascii '' ruchu: '' @ str_exn (Exception (ascii ''invalid san''))\<rparr>
   \<and> board (handle_player_move ex_lib ex_syzygy ex_app (ascii ''zz'')) = board ex_app
   \<and> move_count (handle_player_move ex_lib ex_syzygy ex_app (ascii ''zz'')) = move_count ex_app
   \<and> status_msg (handle_player_move ex_lib ex_syzygy ex_app (ascii ''zz'')) \<noteq> []
   \<and> parse_move ex_lib (ascii ''e7e5'') (board ex_app) = Inr 3364
   \<and> 3364 \<notin> set (legal_moves ex_lib (board ex_app))
   \<and> handle_player_move ex_lib ex_syzygy ex_app (ascii ''e7e5'')
       = ex_app\<lparr>status_msg := ascii ''Nielegalny ruch.''\<rparr>"
proof -
  note T1 = handle_player_move_failure[where lib = ex_lib and user_input = "ascii ''zz''"
         and app = ex_app and e = "Exception (ascii ''invalid san'')" and syz = ex_syzygy]
  note T2 = handle_player_move_failure[where lib = ex_lib and user_input = "ascii ''e7e5''"
         and app = ex_app and mv = 3364 and syz = ex_syzygy]
  have r1: "handle_player_move ex_lib ex_syzygy ex_app (ascii ''zz'')
       = ex_app\<lparr>status_msg := blad @ ascii '' ruchu: '' @ str_exn (Exception (ascii ''invalid san''))\<rparr>"
    using T1[THEN conjunct1] ex_parse_move(1) by (rule mp)
  have r2: "handle_player_move ex_lib ex_syzygy ex_app (ascii ''e7e5'')
       = ex_app\<lparr>status_msg := ascii ''Nielegalny ruch.''\<rparr>"
    using T2[THEN conjunct2, THEN conjunct1] conjI[OF ex_parse_move(2) ex_not_legal]
    by (rule mp)
  from T1[THEN conjunct2, THEN conjunct2, THEN mp, OF disjI1, OF ex_parse_move(1)]
  have r3: "board (handle_player_move ex_lib ex_syzygy ex_app (ascii ''zz'')) = board ex_app"
    "move_count (handle_player_move ex_lib ex_syzygy ex_app (ascii ''zz'')) = move_count ex_app"
    "status_msg (handle_player_move ex_lib ex_syzygy ex_app (ascii ''zz'')) \<noteq> []"
    by blast+
  from r1 r2 r3 ex_parse_move ex_not_legal show ?thesis by (intro conjI)
qed

text \<open>
  C4. \<^verbatim>\<open>synergy_check\<close> calls the tablebase library if and only if a tablebase path is
  configured (\<^verbatim>\<open>tb_path\<close> is a non-empty string) and the position has at most 7 pieces.
  It then opens the tablebase at that path and probes the current board, and
  \<^verbatim>\<open>status_msg\<close> becomes \<^verbatim>\<open>(Syzygy) WDL = \<close> followed by the value \<^verbatim>\<open>probe_wdl\<close> returned,
  or the word \<^verbatim>\<open>Blad\<close> (with its Polish letters), \<^verbatim>\<open> Syzygy: \<close> and the text of the exception
  that \<^verbatim>\<open>open_tablebase\<close> or \<^verbatim>\<open>probe_wdl\<close> raised; nothing else changes. Otherwise it
  leaves the state as it is. \<^verbatim>\<open>do_move\<close> ends with this check on the position after the
  move.
\<close>

theorem synergy_check_probe:
  "(\<forall>path. tb_path app = Some path \<and> path \<noteq> [] \<and> length (piece_map lib (board app)) \<le> 7 \<longrightarrow>
      (\<forall>e. open_tablebase syz path = Inl e \<longrightarrow>
          synergy_check lib syz app
            = app\<lparr>status_msg := [66, 322, 261, 100] @ ascii '' Syzygy: '' @ str_exn e,
                  syzygy_calls := syzygy_calls app @ [OpenTablebase path]\<rparr>)
      \<and> (\<forall>tb e. open_tablebase syz path = Inr tb \<and> probe_wdl syz tb (board app) = Inl e \<longrightarrow>
          synergy_check lib syz app
            = app\<lparr>status_msg := [66, 322, 261, 100] @ ascii '' Syzygy: '' @ str_exn e,
                  syzygy_calls := syzygy_calls app @ [OpenTablebase path, ProbeWdl (board app)]\<rparr>)
      \<and> (\<forall>tb wdl. open_tablebase syz path = Inr tb \<and> probe_wdl syz tb (board app) = Inr wdl \<longrightarrow>
          synergy_check lib syz app
            = app\<lparr>status_msg := ascii ''(Syzygy) WDL = '' @ str_int wdl,
                  syzygy_calls := syzygy_calls app @ [OpenTablebase path, ProbeWdl (board app)]\<rparr>))
   \<and> (tb_path_set app \<longleftrightarrow> (\<exists>path. tb_path app = Some path \<and> path \<noteq> []))
   \<and> (\<not> (tb_path_set app \<and> length (piece_map lib (board app)) \<le> 7) \<longrightarrow>
      synergy_check lib syz app = app)
   \<and> (syzygy_calls (synergy_check lib syz app) \<noteq> syzygy_calls app
        \<longleftrightarrow> tb_path_set app \<and> length (piece_map lib (board app)) \<le> 7)
   \<and> (\<forall>move_san. san lib (board app) mv = Inr move_san \<longrightarrow>
        (\<exists>app2. board app2 = push lib (board app) mv \<and> tb_path app2 = tb_path app
           \<and> do_move lib syz app mv = Inr (synergy_check lib syz app2)))"
proof (intro conjI impI allI)
  fix path e
  assume "tb_path app = Some path \<and> path \<noteq> [] \<and> length (piece_map lib (board app)) \<le> 7"
    and "open_tablebase syz path = Inl e"
  then show "synergy_check lib syz app
            = app\<lparr>status_msg := [66, 322, 261, 100] @ ascii '' Syzygy: '' @ str_exn e,
                  syzygy_calls := syzygy_calls app @ [OpenTablebase path]\<rparr>"
    by (simp add: synergy_check_def blad_def)
next
  fix path tb e
  assume "tb_path app = Some path \<and> path \<noteq> [] \<and> length (piece_map lib (board app)) \<le> 7"
    and "open_tablebase syz path = Inr tb \<and> probe_wdl syz tb (board app) = Inl e"
  then show "synergy_check lib syz app
            = app\<lparr>status_msg := [66, 322, 261, 100] @ ascii '' Syzygy: '' @ str_exn e,
                  syzygy_calls := syzygy_calls app @ [OpenTablebase path, ProbeWdl (board app)]\<rparr>"
    by (simp add: synergy_check_def blad_def)
next
  fix path tb wdl
  assume "tb_path app = Some path \<and> path \<noteq> [] \<and> length (piece_map lib (board app)) \<le> 7"
    and "open_tablebase syz path = Inr tb \<and> probe_wdl syz tb (board app) = Inr wdl"
  then show "synergy_check lib syz app
            = app\<lparr>status_msg := ascii ''(Syzygy) WDL = '' @ str_int wdl,
                  syzygy_calls := syzygy_calls app @ [OpenTablebase path, ProbeWdl (board app)]\<rparr>"
    by (simp add: synergy_check_def)
next
  show "tb_path_set app \<longleftrightarrow> (\<exists>path. tb_path app = Some path \<and> path \<noteq> [])"
    by (simp add: tb_path_set_def split: option.splits)
next
  assume "\<not> (tb_path_set app \<and> length (piece_map lib (board app)) \<le> 7)"
  then show "synergy_check lib syz app = app"
    by (auto simp: synergy_check_def tb_path_set_def split: option.splits)
next
  show "syzygy_calls (synergy_check lib syz app) \<noteq> syzygy_calls app
        \<longleftrightarrow> tb_path_set app \<and> length (piece_map lib (board app)) \<le> 7"
    by (auto simp: synergy_check_def tb_path_set_def split: option.splits sum.splits)
next
  fix move_san
  let ?app1 = "app\<lparr>board := push lib (board app) mv\<rparr>"
  let ?app2 = "if turn lib (board ?app1) = WHITE
               then ?app1\<lparr>last_move_black := move_san, move_count := move_count ?app1 + 1\<rparr>
               else ?app1\<lparr>last_move_white := move_san\<rparr>"
  assume "san lib (board app) mv = Inr move_san"
  then have "do_move lib syz app mv = Inr (synergy_check lib syz ?app2)"
    by (simp add: do_move_def Let_def USE_SYZYGY_AFTER_MOVE_def)
  moreover have "board ?app2 = push lib (board app) mv" "tb_path ?app2 = tb_path app"
    by simp_all
  ultimately show "\<exists>app2. board app2 = push lib (board app) mv \<and> tb_path app2 = tb_path app
           \<and> do_move lib syz app mv = Inr (synergy_check lib syz app2)"
    by blast
qed

lemma ex_probe_path:
  "tb_path (ex_app\<lparr>tb_path := Some (ascii ''tb'')\<rparr>) = Some (ascii ''tb'') \<and> ascii ''tb'' \<noteq> []
   \<and> length (piece_map ex_lib (board (ex_app\<lparr>tb_path := Some (ascii ''tb'')\<rparr>))) \<le> 7"
  "tb_path (ex_app\<lparr>tb_path := Some (ascii ''none'')\<rparr>) = Some (ascii ''none'') \<and> ascii ''none'' \<noteq> []
   \<and> length (piece_map ex_lib (board (ex_app\<lparr>tb_path := Some (ascii ''none'')\<rparr>))) \<le> 7"
  "open_tablebase ex_syzygy (ascii ''tb'') = Inr ()
   \<and> probe_wdl ex_syzygy () (board (ex_app\<lparr>tb_path := Some (ascii ''tb'')\<rparr>)) = Inr 0"
  "open_tablebase ex_syzygy (ascii ''none'') = Inl (Exception (ascii ''no such directory''))"
  "open_tablebase ex_syzygy_missing (ascii ''tb'') = Inr ()
   \<and> probe_wdl ex_syzygy_missing () (board (ex_app\<lparr>tb_path := Some (ascii ''tb'')\<rparr>))
       = Inl (Exception (ascii ''missing table''))"
  by (simp_all add: ex_app_def ex_lib_def ex_syzygy_def ex_syzygy_missing_def ascii_def)

lemma ex_probe_guard:
  "tb_path_set (ex_app\<lparr>tb_path := Some (ascii ''tb'')\<rparr>)
   \<and> length (piece_map ex_lib (board (ex_app\<lparr>tb_path := Some (ascii ''tb'')\<rparr>))) \<le> 7"
  "\<not> (tb_path_set ex_app \<and> length (piece_map ex_lib (board ex_app)) \<le> 7)"
  "san ex_lib (board ex_app) 796 = Inr (ascii ''e4'')"
  by (simp_all add: tb_path_set_def ex_app_def ex_lib_def ascii_def ex_san_def)

theorem synergy_check_probe_witness:
  "tb_path (ex_app\<lparr>tb_path := Some (ascii ''tb'')\<rparr>) = Some (ascii ''tb'') \<and> ascii ''tb'' \<noteq> []
   \<and> length (piece_map ex_lib (board (ex_app\<lparr>tb_path := Some (ascii ''tb'')\<rparr>))) \<le> 7
   \<and> open_tablebase ex_syzygy (ascii ''tb'') = Inr ()
   \<and> probe_wdl ex_syzygy () (board (ex_app\<lparr>tb_path := Some (ascii ''tb'')\<rparr>)) = Inr 0
   \<and> synergy_check ex_lib ex_syzygy (ex_app\<lparr>tb_path := Some (ascii ''tb'')\<rparr>)
       = ex_app\<lparr>tb_path := Some (ascii ''tb''), status_msg := ascii ''(Syzygy) WDL = 0'',
                syzygy_calls := [OpenTablebase (ascii ''tb''), ProbeWdl []]\<rparr>
   \<and> open_tablebase ex_syzygy (ascii ''none'') = Inl (Exception (ascii ''no such directory''))
   \<and> synergy_check ex_lib ex_syzygy (ex_app\<lparr>tb_path := Some (ascii ''none'')\<rparr>)
       = ex_app\<lparr>tb_path := Some (ascii ''none''),
                status_msg := [66, 322, 261, 100] @ ascii '' Syzygy: no such directory'',
                syzygy_calls := [OpenTablebase (ascii ''none'')]\<rparr>
   \<and> probe_wdl ex_syzygy_missing () (board (ex_app\<lparr>tb_path := Some (ascii ''tb'')\<rparr>))
       = Inl (Exception (ascii ''missing table''))
   \<and> synergy_check ex_lib ex_syzygy_missing (ex_app\<lparr>tb_path := Some (ascii ''tb'')\<rparr>)
       = ex_app\<lparr>tb_path := Some (ascii ''tb''),
                status_msg := [66, 322, 261, 100] @ ascii '' Syzygy: missing table'',
                syzygy_calls := [OpenTablebase (ascii ''tb''), ProbeWdl []]\<rparr>
   \<and> tb_path_set (ex_app\<lparr>tb_path := Some (ascii ''tb'')\<rparr>)
   \<and> syzygy_calls (synergy_check ex_lib ex_syzygy (ex_app\<lparr>tb_path := Some (ascii ''tb'')\<rparr>))
        \<noteq> syzygy_calls (ex_app\<lparr>tb_path := Some (ascii ''tb'')\<rparr>)
   \<and> \<not> (tb_path_set ex_app \<and> length (piece_map ex_lib (board ex_app)) \<le> 7)
   \<and> synergy_check ex_lib ex_syzygy ex_app = ex_app
   \<and> san ex_lib (board ex_app) 796 = Inr (ascii ''e4'')
   \<and> (\<exists>app2. board app2 = push ex_lib (board ex_app) 796 \<and> tb_path app2 = tb_path ex_app
         \<and> do_move ex_lib ex_syzygy ex_app 796 = Inr (synergy_check ex_lib ex_syzygy app2))"
proof -
  note T1 = synergy_check_probe[where app = "ex_app\<lparr>tb_path := Some (ascii ''tb'')\<rparr>"
              and lib = ex_lib and syz = ex_syzygy and mv = 796]
  note T2 = synergy_check_probe[where app = ex_app and lib = ex_lib and syz = ex_syzygy and mv = 796]
  note T3 = synergy_check_probe[where app = "ex_app\<lparr>tb_path := Some (ascii ''none'')\<rparr>"
              and lib = ex_lib and syz = ex_syzygy and mv = 796]
  from T1[THEN conjunct1, rule_format, OF ex_probe_path(1), THEN conjunct2, THEN conjunct2,
          rule_format, OF ex_probe_path(3)]
  have r0: "synergy_check ex_lib ex_syzygy (ex_app\<lparr>tb_path := Some (ascii ''tb'')\<rparr>)
       = ex_app\<lparr>tb_path := Some (ascii ''tb''), status_msg := ascii ''(Syzygy) WDL = 0'',
                syzygy_calls := [OpenTablebase (ascii ''tb''), ProbeWdl []]\<rparr>"
    by (simp add: ex_app_def str_int_def ascii_def)
  from T3[THEN conjunct1, rule_format, OF ex_probe_path(2), THEN conjunct1,
          rule_format, OF ex_probe_path(4)]
  have r0': "synergy_check ex_lib ex_syzygy (ex_app\<lparr>tb_path := Some (ascii ''none'')\<rparr>)
       = ex_app\<lparr>tb_path := Some (ascii ''none''),
                status_msg := [66, 322, 261, 100] @ ascii '' Syzygy: no such directory'',
                syzygy_calls := [OpenTablebase (ascii ''none'')]\<rparr>"
    by (simp add: ex_app_def ascii_def)
  note T4 = synergy_check_probe[where app = "ex_app\<lparr>tb_path := Some (ascii ''tb'')\<rparr>"
              and lib = ex_lib and syz = ex_syzygy_missing and mv = 796]
  from T4[THEN conjunct1, rule_format, OF ex_probe_path(1), THEN conjunct2, THEN conjunct1,
          rule_format, OF ex_probe_path(5)]
  have r0'': "synergy_check ex_lib ex_syzygy_missing (ex_app\<lparr>tb_path := Some (ascii ''tb'')\<rparr>)
       = ex_app\<lparr>tb_path := Some (ascii ''tb''),
                status_msg := [66, 322, 261, 100] @ ascii '' Syzygy: missing table'',
                syzygy_calls := [OpenTablebase (ascii ''tb''), ProbeWdl []]\<rparr>"
    by (simp add: ex_app_def ascii_def)
  have r1: "syzygy_calls (synergy_check ex_lib ex_syzygy (ex_app\<lparr>tb_path := Some (ascii ''tb'')\<rparr>))
        \<noteq> syzygy_calls (ex_app\<lparr>tb_path := Some (ascii ''tb'')\<rparr>)"
    using T1[THEN conjunct2, THEN conjunct2, THEN conjunct2, THEN conjunct1] ex_probe_guard(1)
    by (rule iffD2)
  have r2: "synergy_check ex_lib ex_syzygy ex_app = ex_app"
    using T2[THEN conjunct2, THEN conjunct2, THEN conjunct1] ex_probe_guard(2) by (rule mp)
  have r3: "\<exists>app2. board app2 = push ex_lib (board ex_app) 796 \<and> tb_path app2 = tb_path ex_app
         \<and> do_move ex_lib ex_syzygy ex_app 796 = Inr (synergy_check ex_lib ex_syzygy app2)"
    using T2[THEN conjunct2, THEN conjunct2, THEN conjunct2, THEN conjunct2, rule_format]
      ex_probe_guard(3)
    by blast
  from ex_probe_path ex_probe_guard r0 r0' r0'' r1 r2 r3 show ?thesis by (intro conjI) simp_all
qed
section \<open>Proofs: the receive thread\<close>

lemma split_on_nonempty: "split_on sep s \<noteq> []"
  by (induction s) (auto split: list.splits)

lemma hd_split_on: "hd (split_on sep s) = takeWhile (\<lambda>c. c \<noteq> sep) s"
  by (induction s) (auto split: list.splits simp: split_on_nonempty)

lemma length_split_on: "length (split_on sep s) \<le> 1 \<longleftrightarrow> sep \<notin> set s"
  by (induction s) (auto split: list.splits simp: split_on_nonempty)

lemma split_on_second:
  "sep \<in> set s \<Longrightarrow>
     split_on sep s ! 1 = takeWhile (\<lambda>c. c \<noteq> sep) (tl (dropWhile (\<lambda>c. c \<noteq> sep) s))"
proof (induction s)
  case Nil
  then show ?case by simp
next
  case (Cons c cs)
  show ?case
  proof (cases "c = sep")
    case True
    then show ?thesis
      using hd_split_on[of sep cs] split_on_nonempty[of sep cs]
      by (simp add: hd_conv_nth)
  next
    case False
    with Cons.prems have "sep \<in> set cs" by simp
    from Cons.IH[OF this] False show ?thesis
      by (auto split: list.splits simp: split_on_nonempty)
  qed
qed

text \<open>
  C5, as amended. The receive loop branches on the prefix of the decoded data. Data without
  the prefix \<^verbatim>\<open>OPPONENT_MOVE\<close> leaves the board as it is and the loop goes on. Data with the
  prefix changes the board only when it holds a separator and \<^verbatim>\<open>push_uci\<close> accepts the text
  between the first and the second separator, which is then pushed; with the prefix but
  without a separator the index raises, and a text that \<^verbatim>\<open>push_uci\<close> rejects raises. Any
  exception, also one of \<^verbatim>\<open>recv\<close> or \<^verbatim>\<open>decode\<close>, ends the loop with the board unchanged. So
  the board is changed only if the data starts with the prefix, not whenever it does.
\<close>

theorem receive_step_cases:
  "(\<not> startswith data (ascii ''OPPONENT_MOVE'') \<longrightarrow> receive_step lib b (Inr data) = Inr b)
   \<and> (startswith data (ascii ''OPPONENT_MOVE'') \<and> 124 \<notin> set data \<longrightarrow>
        receive_step lib b (Inr data) = Inl (IndexError (ascii ''list index out of range'')))
   \<and> (startswith data (ascii ''OPPONENT_MOVE'') \<and> 124 \<in> set data \<longrightarrow>
        receive_step lib b (Inr data) = push_uci lib b (second_field data))
   \<and> receive_step lib b (Inl e) = Inl e
   \<and> (\<forall>b'. receive_step lib b (Inr data) = Inr b' \<and> b' \<noteq> b \<longrightarrow>
        startswith data (ascii ''OPPONENT_MOVE'') \<and> push_uci lib b (second_field data) = Inr b')
   \<and> (receive_step lib b r = Inl e \<longrightarrow> receive_thread lib b (r # rs) = (b, Some e))
   \<and> (\<forall>b'. receive_step lib b r = Inr b' \<longrightarrow>
        receive_thread lib b (r # rs) = receive_thread lib b' rs)"
  using length_split_on[of 124 data] split_on_second[of 124 data]
  by (auto simp: receive_step_def Let_def second_field_def)

lemma ex_startswith:
  "startswith (ascii ''OPPONENT_MOVE'') (ascii ''OPPONENT_MOVE'')"
  "startswith (ascii ''OPPONENT_MOVE|e2e4'') (ascii ''OPPONENT_MOVE'')"
  "\<not> startswith (ascii ''MATCH_FOUND|white'') (ascii ''OPPONENT_MOVE'')"
  "124 \<notin> set (ascii ''OPPONENT_MOVE'')"
  "124 \<in> set (ascii ''OPPONENT_MOVE|e2e4'')"
  "second_field (ascii ''OPPONENT_MOVE|e2e4'') = ascii ''e2e4''"
  by (simp_all add: startswith_def ascii_def second_field_def)

lemma ex_push_uci_e2e4: "push_uci ex_lib [] (ascii ''e2e4'') = Inr [796]"
  by (simp add: ex_lib_def ex_push_uci_def ex_parse_uci_def ex_legal_def ascii_def)

text \<open>
  C5 as stated fails: the data \<^verbatim>\<open>OPPONENT_MOVE\<close> starts with the prefix, yet the board is
  not changed; the index \<^verbatim>\<open>[1]\<close> raises and the thread ends, so that a later move is never
  read.
\<close>

theorem receive_step_counterexample:
  "startswith (ascii ''OPPONENT_MOVE'') (ascii ''OPPONENT_MOVE'')
   \<and> receive_step ex_lib [] (Inr (ascii ''OPPONENT_MOVE''))
        = Inl (IndexError (ascii ''list index out of range''))
   \<and> receive_thread ex_lib [] [Inr (ascii ''OPPONENT_MOVE''), Inr (ascii ''OPPONENT_MOVE|e2e4'')]
        = ([], Some (IndexError (ascii ''list index out of range'')))"
proof -
  have 1: "receive_step ex_lib [] (Inr (ascii ''OPPONENT_MOVE''))
        = Inl (IndexError (ascii ''list index out of range''))"
    by (simp add: receive_step_def startswith_def ascii_def)
  then have "receive_thread ex_lib [] [Inr (ascii ''OPPONENT_MOVE''), Inr (ascii ''OPPONENT_MOVE|e2e4'')]
        = ([], Some (IndexError (ascii ''list index out of range'')))"
    by simp
  with 1 ex_startswith(1) show ?thesis by (intro conjI)
qed

theorem receive_step_cases_witness:
  "\<not> startswith (ascii ''MATCH_FOUND|white'') (ascii ''OPPONENT_MOVE'')
   \<and> receive_step ex_lib [] (Inr (ascii ''MATCH_FOUND|white'')) = Inr []
   \<and> startswith (ascii ''OPPONENT_MOVE|e2e4'') (ascii ''OPPONENT_MOVE'')
   \<and> 124 \<in> set (ascii ''OPPONENT_MOVE|e2e4'')
   \<and> receive_step ex_lib [] (Inr (ascii ''OPPONENT_MOVE|e2e4'')) = Inr [796]
   \<and> receive_thread ex_lib [] [Inr (ascii ''OPPONENT_MOVE|e2e4'')] = ([796], None)"
proof -
  note T1 = receive_step_cases[where data = "ascii ''MATCH_FOUND|white''" and lib = ex_lib
              and b = "[]"]
  note T2 = receive_step_cases[where data = "ascii ''OPPONENT_MOVE|e2e4''" and lib = ex_lib
              and b = "[]" and r = "Inr (ascii ''OPPONENT_MOVE|e2e4'')" and rs = "[]"]
  have r1: "receive_step ex_lib [] (Inr (ascii ''MATCH_FOUND|white'')) = Inr []"
    using T1[THEN conjunct1] ex_startswith(3) by (rule mp)
  have "receive_step ex_lib [] (Inr (ascii ''OPPONENT_MOVE|e2e4''))
          = push_uci ex_lib [] (second_field (ascii ''OPPONENT_MOVE|e2e4''))"
    using T2[THEN conjunct2, THEN conjunct2, THEN conjunct1] conjI[OF ex_startswith(2,5)]
    by (rule mp)
  then have r2: "receive_step ex_lib [] (Inr (ascii ''OPPONENT_MOVE|e2e4'')) = Inr [796]"
    by (simp only: ex_startswith(6) ex_push_uci_e2e4)
  have "receive_thread ex_lib [] [Inr (ascii ''OPPONENT_MOVE|e2e4'')]
          = receive_thread ex_lib [796] []"
    using T2[THEN conjunct2, THEN conjunct2, THEN conjunct2, THEN conjunct2, THEN conjunct2,
             THEN conjunct2, rule_format] r2 by blast
  then have r3: "receive_thread ex_lib [] [Inr (ascii ''OPPONENT_MOVE|e2e4'')] = ([796], None)"
    by simp
  from r1 r2 r3 ex_startswith show ?thesis by (intro conjI)
qed


section \<open>Proofs: the puzzle download\<close>

text \<open>
  C7. \<^verbatim>\<open>get_lichess_puzzle\<close> returns the parsed JSON document when the GET returns status
  200 (and the body parses); on any other status code and on any exception, of the request
  or of the parsing, it returns \<^verbatim>\<open>None\<close>; a result other than \<^verbatim>\<open>None\<close> is the parsed document
  of a response with status 200. \<^verbatim>\<open>draw_puzzle\<close> called with \<^verbatim>\<open>None\<close> prints one line and returns:
  its trace holds no fill, no board drawing and no flip, whatever the session would do.
\<close>

theorem get_lichess_puzzle_cases:
  "get_lichess_puzzle (Inr (200, Inr doc)) = ([], doc)
   \<and> (status_code \<noteq> 200 \<longrightarrow> get_lichess_puzzle (Inr (status_code, body)) = ([], JNull))
   \<and> get_lichess_puzzle (Inl e)
        = ([blad @ ascii '' pobierania zadania z Lichess: '' @ str_exn e], JNull)
   \<and> get_lichess_puzzle (Inr (200, Inl e))
        = ([blad @ ascii '' pobierania zadania z Lichess: '' @ str_exn e], JNull)
   \<and> (snd (get_lichess_puzzle http) \<noteq> JNull \<longrightarrow>
        (\<exists>d. http = Inr (200, Inr d) \<and> snd (get_lichess_puzzle http) = d))
   \<and> draw_puzzle session JNull = [Print (ascii ''Brak zadania do wy'' @ [347] @ ascii ''wietlenia'')]
   \<and> draw_puzzle session (snd (get_lichess_puzzle (Inr (404, body))))
        = [Print (ascii ''Brak zadania do wy'' @ [347] @ ascii ''wietlenia'')]"
  by (auto simp: get_lichess_puzzle_def draw_puzzle_def split: sum.splits prod.splits)

theorem get_lichess_puzzle_cases_witness:
  "(404::int) \<noteq> 200
   \<and> get_lichess_puzzle (Inr (404, Inr (JObject []))) = ([], JNull)
   \<and> snd (get_lichess_puzzle (Inr (200, Inr (JString (ascii ''x''))))) \<noteq> JNull
   \<and> get_lichess_puzzle (Inr (200, Inr (JString (ascii ''x'')))) = ([], JString (ascii ''x''))"
proof -
  have n: "(404::int) \<noteq> 200" by simp
  have r1: "get_lichess_puzzle (Inr (404, Inr (JObject []))) = ([], JNull)"
    using get_lichess_puzzle_cases[where status_code = 404 and body = "Inr (JObject [])",
            THEN conjunct2, THEN conjunct1] n by (rule mp)
  have r2: "get_lichess_puzzle (Inr (200, Inr (JString (ascii ''x'')))) = ([], JString (ascii ''x''))"
    using get_lichess_puzzle_cases[where doc = "JString (ascii ''x'')", THEN conjunct1] .
  from n r1 r2 show ?thesis by simp
qed

section \<open>Proofs: the messages sent to the game server\<close>

lemma sent_append: "sent (a @ b) = sent a @ sent b"
  by (induction a rule: sent.induct) simp_all

lemma sent_send_to_server: "sent (fst (send_to_server sock d)) = [d]"
  by (simp add: send_to_server_def split: sum.splits)

lemma sent_ai_click: "sent (fst (ai_click lib g x y)) = []"
  by (simp add: ai_click_def Let_def split: option.splits)

lemma sent_ai_events: "sent (fst (ai_events lib g evs)) = []"
proof (induction lib g evs rule: ai_events.induct)
  case (3 lib g x y evs)
  have "sent (fst (ai_events lib (snd (ai_click lib g x y)) evs)) = []"
    by (rule 3[OF refl prod.collapse])
  then show ?case by (simp add: split_beta sent_append sent_ai_click)
qed simp_all

lemma sent_get_move: "sent (fst (get_move wrapped reply)) = []"
  by (simp add: get_move_def split: option.splits sum.splits)

lemma sent_ai_engine_turn: "sent (fst (ai_engine_turn lib wrapped g fr)) = []"
  by (simp add: ai_engine_turn_def Let_def split_beta sent_get_move
        split: option.splits sum.splits)

lemma sent_ai_iteration: "sent (fst (ai_iteration lib wrapped g fr)) = []"
  by (simp add: ai_iteration_def Let_def split_beta sent_append sent_ai_events
        sent_ai_engine_turn)

lemma sent_ai_loop: "sent (fst (ai_loop lib wrapped g frs)) = []"
proof (induction frs arbitrary: g)
  case Nil
  then show ?case by simp
next
  case (Cons fr frs)
  with sent_ai_iteration[of lib wrapped g fr] show ?case
    by (cases "ai_iteration lib wrapped g fr")
       (auto simp: split_beta sent_append split: outcome.splits)
qed

lemma sent_play_against_ai: "sent (fst (play_against_ai lib wrapped frames)) = []"
  by (simp add: play_against_ai_def sent_ai_loop)

lemma sent_online_click:
  "sent (fst (online_click lib sock is_white opponent g x y)) = []
   \<or> (\<exists>mv. sent (fst (online_click lib sock is_white opponent g x y))
              = [move_msg opponent (uci lib mv)])"
  by (auto simp: online_click_def Let_def sent_send_to_server split: option.splits)

lemma sent_online_events:
  "\<forall>m\<in>set (sent (fst (online_events lib sock is_white opponent g evs))).
      \<exists>mv. m = move_msg opponent (uci lib mv)"
proof (induction lib sock is_white opponent g evs rule: online_events.induct)
  case (3 lib sock is_white opponent g x y evs)
  from 3[OF prod.collapse refl] sent_online_click[of lib sock is_white opponent g x y]
  show ?case by (auto simp: split_beta sent_append)
qed simp_all

lemma sent_online_iteration:
  "\<forall>m\<in>set (sent (fst (online_iteration lib sock username is_white opponent g evs))).
      (\<exists>mv. m = move_msg opponent (uci lib mv))
      \<or> (\<exists>b. m = game_over_msg username opponent (result lib b))"
  using sent_online_events[of lib sock is_white opponent g evs]
  by (auto simp: online_iteration_def Let_def split_beta sent_append sent_send_to_server)

lemma sent_online_loop:
  "\<forall>m\<in>set (sent (fst (online_loop lib sock username is_white opponent alive g frs))).
      (\<exists>mv. m = move_msg opponent (uci lib mv))
      \<or> (\<exists>b. m = game_over_msg username opponent (result lib b))"
proof (induction frs arbitrary: alive g)
  case Nil
  then show ?case by simp
next
  case (Cons fr frs)
  define t where "t = (if alive then receive_thread lib (g_board g) (received fr)
                       else (g_board g, None))"
  define it where
    "it = online_iteration lib sock username is_white opponent (g\<lparr>g_board := fst t\<rparr>) (events fr)"
  have e: "\<forall>m\<in>set (sent (fst it)).
      (\<exists>mv. m = move_msg opponent (uci lib mv))
      \<or> (\<exists>b. m = game_over_msg username opponent (result lib b))"
    unfolding it_def by (rule sent_online_iteration)
  show ?case
  proof (cases "running g")
    case False
    then show ?thesis by simp
  next
    case True
    show ?thesis
    proof (cases "snd it")
      case (Running g')
      from Cons.IH[of "alive \<and> snd t = None" g'] True e Running show ?thesis
        by (cases it) (auto simp: Let_def split_beta sent_append t_def[symmetric] it_def[symmetric]
              split: option.splits)
    qed (use True e in \<open>cases it; auto simp: Let_def split_beta sent_append
           t_def[symmetric] it_def[symmetric] split: option.splits\<close>)+
  qed
qed

lemma sent_launch_online_game:
  "\<forall>m\<in>set (sent (fst (launch_online_game lib sock username is_white opponent frames))).
      (\<exists>mv. m = move_msg opponent (uci lib mv))
      \<or> (\<exists>b. m = game_over_msg username opponent (result lib b))"
  unfolding launch_online_game_def by (rule sent_online_loop)

lemma sent_choose_opponent:
  "\<forall>m\<in>set (sent (fst (choose_opponent lib sock username wrapped frames))).
      m = start_match_msg
      \<or> (\<exists>mv. m = move_msg (ascii ''Przeciwnik1'') (uci lib mv))
      \<or> (\<exists>b. m = game_over_msg username (ascii ''Przeciwnik1'') (result lib b))"
proof (induction frames)
  case Nil
  then show ?case by simp
next
  case (Cons fr frs)
  show ?case
  proof (cases "choose_event (events fr)")
    case None
    with Cons.IH show ?thesis by (auto simp: Let_def split_beta sent_append)
  next
    case (Some ch)
    show ?thesis
    proof (cases ch)
      case ChooseOnline
      with Some sent_launch_online_game[of lib sock username True "ascii ''Przeciwnik1''" frs]
      show ?thesis
        by (auto simp: Let_def split_beta sent_append sent_send_to_server wait_for_match_def)
    next
      case ChooseAI
      with Some sent_play_against_ai[of lib wrapped frs] show ?thesis
        by (auto simp: Let_def split_beta sent_append)
    qed (use Some in \<open>simp_all add: Let_def sent_append\<close>)
  qed
qed

text \<open>
  C6. Every message handed to \<^verbatim>\<open>client_socket.send\<close> has one of the four forms.
  \<^verbatim>\<open>login_screen\<close> sends exactly \<^verbatim>\<open>LOGIN|Buldozer|123\<close>. \<^verbatim>\<open>launch_online_game\<close> sends only
  texts \<^verbatim>\<open>MOVE|\<close>, opponent, \<^verbatim>\<open>|\<close>, UCI text of a move, and texts \<^verbatim>\<open>GAME_OVER|\<close>, user,
  \<^verbatim>\<open>|\<close>, opponent, \<^verbatim>\<open>|\<close>, result of a board: a click that completes a legal move of the
  player's own sends the \<^verbatim>\<open>MOVE\<close> message of that move and pushes it, and a pass that finds
  the game over sends the \<^verbatim>\<open>GAME_OVER\<close> message with the result of the board and leaves
  the loop. \<^verbatim>\<open>choose_opponent\<close> sends \<^verbatim>\<open>START_MATCH\<close> when the online button is clicked,
  and then only what the online game against \<^verbatim>\<open>Przeciwnik1\<close> sends. \<^verbatim>\<open>play_against_ai\<close>
  sends nothing. These are all the callers of \<^verbatim>\<open>send_to_server\<close>.
\<close>

theorem sent_messages_forms:
  "sent (fst (login_screen sock)) = [ascii ''LOGIN|Buldozer|123'']
   \<and> (\<forall>m\<in>set (sent (fst (launch_online_game lib sock username is_white opponent frames))).
         (\<exists>mv. m = ascii ''MOVE|'' @ opponent @ ascii ''|'' @ uci lib mv)
         \<or> (\<exists>b. m = ascii ''GAME_OVER|'' @ username @ ascii ''|'' @ opponent @ ascii ''|''
                      @ result lib b))
   \<and> (\<forall>m\<in>set (sent (fst (choose_opponent lib sock username wrapped frames))).
         m = ascii ''START_MATCH''
         \<or> (\<exists>mv. m = ascii ''MOVE|Przeciwnik1|'' @ uci lib mv)
         \<or> (\<exists>b. m = ascii ''GAME_OVER|'' @ username @ ascii ''|Przeciwnik1|'' @ result lib b))
   \<and> sent (fst (play_against_ai lib wrapped frames)) = []
   \<and> (turn lib (g_board g) = is_white \<and> selected_square g = Some sel \<and> click_square x y = Some sq
        \<and> Move lib sel sq \<in> set (legal_moves lib (g_board g)) \<longrightarrow>
        sent (fst (online_click lib sock is_white opponent g x y))
          = [ascii ''MOVE|'' @ opponent @ ascii ''|'' @ uci lib (Move lib sel sq)]
        \<and> g_board (snd (online_click lib sock is_white opponent g x y))
          = push lib (g_board g) (Move lib sel sq))
   \<and> (is_game_over lib (g_board g) \<longrightarrow>
        sent (fst (online_iteration lib sock username is_white opponent g evs))
          = [ascii ''GAME_OVER|'' @ username @ ascii ''|'' @ opponent @ ascii ''|''
               @ result lib (g_board g)]
        \<and> snd (online_iteration lib sock username is_white opponent g evs) = Returned g)
   \<and> (choose_event (events fr) = Some ChooseOnline \<longrightarrow>
        (\<exists>rest. sent (fst (choose_opponent lib sock username wrapped (fr # frs)))
                  = ascii ''START_MATCH'' # rest))"
proof (intro conjI)
  show "sent (fst (login_screen sock)) = [ascii ''LOGIN|Buldozer|123'']"
    by (simp add: login_screen_def Let_def split_beta sent_append sent_send_to_server
          login_msg_def ascii_def)
  show "\<forall>m\<in>set (sent (fst (launch_online_game lib sock username is_white opponent frames))).
         (\<exists>mv. m = ascii ''MOVE|'' @ opponent @ ascii ''|'' @ uci lib mv)
         \<or> (\<exists>b. m = ascii ''GAME_OVER|'' @ username @ ascii ''|'' @ opponent @ ascii ''|''
                      @ result lib b)"
    using sent_launch_online_game[of lib sock username is_white opponent frames]
    by (simp add: move_msg_def game_over_msg_def ascii_def)
  show "\<forall>m\<in>set (sent (fst (choose_opponent lib sock username wrapped frames))).
         m = ascii ''START_MATCH''
         \<or> (\<exists>mv. m = ascii ''MOVE|Przeciwnik1|'' @ uci lib mv)
         \<or> (\<exists>b. m = ascii ''GAME_OVER|'' @ username @ ascii ''|Przeciwnik1|'' @ result lib b)"
    using sent_choose_opponent[of lib sock username wrapped frames]
    by (simp add: move_msg_def game_over_msg_def start_match_msg_def ascii_def)
  show "sent (fst (play_against_ai lib wrapped frames)) = []"
    by (rule sent_play_against_ai)
  show "turn lib (g_board g) = is_white \<and> selected_square g = Some sel \<and> click_square x y = Some sq
        \<and> Move lib sel sq \<in> set (legal_moves lib (g_board g)) \<longrightarrow>
        sent (fst (online_click lib sock is_white opponent g x y))
          = [ascii ''MOVE|'' @ opponent @ ascii ''|'' @ uci lib (Move lib sel sq)]
        \<and> g_board (snd (online_click lib sock is_white opponent g x y))
          = push lib (g_board g) (Move lib sel sq)"
    by (auto simp: online_click_def Let_def sent_send_to_server WHITE_def BLACK_def
          move_msg_def ascii_def)
  show "is_game_over lib (g_board g) \<longrightarrow>
        sent (fst (online_iteration lib sock username is_white opponent g evs))
          = [ascii ''GAME_OVER|'' @ username @ ascii ''|'' @ opponent @ ascii ''|''
               @ result lib (g_board g)]
        \<and> snd (online_iteration lib sock username is_white opponent g evs) = Returned g"
    by (simp add: online_iteration_def Let_def sent_append sent_send_to_server
          game_over_msg_def ascii_def)
  show "choose_event (events fr) = Some ChooseOnline \<longrightarrow>
        (\<exists>rest. sent (fst (choose_opponent lib sock username wrapped (fr # frs)))
                  = ascii ''START_MATCH'' # rest)"
    by (simp add: Let_def split_beta sent_append sent_send_to_server start_match_msg_def)
qed

lemma ex_click: "click_square 401 429 = Some 12" "click_square 401 301 = Some 28"
  by (simp_all add: click_square_def Let_def square_def DEFAULT_OFFSET_X_def DEFAULT_OFFSET_Y_def
        WIDTH_def HEIGHT_def BOARD_WIDTH_def BOARD_HEIGHT_def SQUARE_SIZE_def)

lemma ex_online_guard:
  "turn ex_lib (g_board ex_game) = True \<and> selected_square ex_game = Some 12
   \<and> click_square 401 301 = Some 28
   \<and> Move ex_lib 12 28 \<in> set (legal_moves ex_lib (g_board ex_game))"
  by (simp add: ex_click ex_game_def ex_lib_def ex_legal_def)

lemma ex_online_sent:
  "sent (fst (launch_online_game ex_lib ex_sock (ascii ''Buldozer'') True (ascii ''opp'') [ex_frame]))
     = [ascii ''MOVE|opp|e2e4'']"
  by (simp add: launch_online_game_def ex_frame_def online_iteration_def Let_def split_beta
        online_click_def ex_click sent_append sent_send_to_server move_msg_def
        ex_lib_def ex_legal_def ex_piece_at_def ex_uci_def WHITE_def BLACK_def ascii_def)

lemma ex_over_guard: "is_game_over ex_lib (g_board ex_final)"
  by (simp add: ex_lib_def ex_final_def)

lemma ex_menu_guard: "choose_event (events ex_menu_frame) = Some ChooseOnline"
  by (simp add: ex_menu_frame_def)

lemma ex_menu_sent:
  "sent (fst (choose_opponent ex_lib ex_sock (ascii ''Buldozer'') (Some ()) [ex_menu_frame, ex_frame]))
     = [ascii ''START_MATCH'', ascii ''MOVE|Przeciwnik1|e2e4'']"
  by (simp add: ex_menu_frame_def wait_for_match_def
        launch_online_game_def ex_frame_def online_iteration_def Let_def split_beta
        online_click_def ex_click sent_append sent_send_to_server move_msg_def start_match_msg_def
        ex_lib_def ex_legal_def ex_piece_at_def ex_uci_def WHITE_def BLACK_def ascii_def)

theorem sent_messages_forms_witness:
  "sent (fst (launch_online_game ex_lib ex_sock (ascii ''Buldozer'') True (ascii ''opp'') [ex_frame]))
     = [ascii ''MOVE|opp|e2e4'']
   \<and> ((\<exists>mv. ascii ''MOVE|opp|e2e4'' = ascii ''MOVE|'' @ ascii ''opp'' @ ascii ''|'' @ uci ex_lib mv)
       \<or> (\<exists>b. ascii ''MOVE|opp|e2e4''
                = ascii ''GAME_OVER|'' @ ascii ''Buldozer'' @ ascii ''|'' @ ascii ''opp'' @ ascii ''|''
                    @ result ex_lib b))
   \<and> sent (fst (choose_opponent ex_lib ex_sock (ascii ''Buldozer'') (Some ())
                  [ex_menu_frame, ex_frame]))
       = [ascii ''START_MATCH'', ascii ''MOVE|Przeciwnik1|e2e4'']
   \<and> (ascii ''MOVE|Przeciwnik1|e2e4'' = ascii ''START_MATCH''
       \<or> (\<exists>mv. ascii ''MOVE|Przeciwnik1|e2e4'' = ascii ''MOVE|Przeciwnik1|'' @ uci ex_lib mv)
       \<or> (\<exists>b. ascii ''MOVE|Przeciwnik1|e2e4''
                = ascii ''GAME_OVER|'' @ ascii ''Buldozer'' @ ascii ''|Przeciwnik1|'' @ result ex_lib b))
   \<and> turn ex_lib (g_board ex_game) = True \<and> selected_square ex_game = Some 12
   \<and> click_square 401 301 = Some 28
   \<and> Move ex_lib 12 28 \<in> set (legal_moves ex_lib (g_board ex_game))
   \<and> sent (fst (online_click ex_lib ex_sock True (ascii ''opp'') ex_game 401 301))
        = [ascii ''MOVE|opp|e2e4'']
   \<and> g_board (snd (online_click ex_lib ex_sock True (ascii ''opp'') ex_game 401 301))
        = push ex_lib (g_board ex_game) (Move ex_lib 12 28)
   \<and> is_game_over ex_lib (g_board ex_final)
   \<and> sent (fst (online_iteration ex_lib ex_sock (ascii ''Buldozer'') True (ascii ''opp'') ex_final []))
        = [ascii ''GAME_OVER|Buldozer|opp|1/2-1/2'']
   \<and> snd (online_iteration ex_lib ex_sock (ascii ''Buldozer'') True (ascii ''opp'') ex_final [])
        = Returned ex_final
   \<and> choose_event (events ex_menu_frame) = Some ChooseOnline
   \<and> (\<exists>rest. sent (fst (choose_opponent ex_lib ex_sock (ascii ''Buldozer'') (Some ())
                          [ex_menu_frame, ex_frame]))
                = ascii ''START_MATCH'' # rest)"
proof -
  note T = sent_messages_forms[where lib = ex_lib and sock = ex_sock
             and username = "ascii ''Buldozer''" and is_white = True and opponent = "ascii ''opp''"
             and frames = "[ex_frame]" and g = ex_game and sel = 12 and sq = 28
             and x = 401 and y = 301]
  note T2 = sent_messages_forms[where lib = ex_lib and sock = ex_sock
             and username = "ascii ''Buldozer''" and is_white = True and opponent = "ascii ''opp''"
             and frames = "[ex_menu_frame, ex_frame]" and g = ex_final and evs = "[]"
             and fr = ex_menu_frame and frs = "[ex_frame]" and wrapped = "Some ()"]
  have m: "ascii ''MOVE|opp|e2e4''
      \<in> set (sent (fst (launch_online_game ex_lib ex_sock (ascii ''Buldozer'') True (ascii ''opp'')
                          [ex_frame])))"
    by (simp add: ex_online_sent)
  from T[THEN conjunct2, THEN conjunct1, THEN bspec, OF m]
  have d: "(\<exists>mv. ascii ''MOVE|opp|e2e4'' = ascii ''MOVE|'' @ ascii ''opp'' @ ascii ''|'' @ uci ex_lib mv)
       \<or> (\<exists>b. ascii ''MOVE|opp|e2e4''
                = ascii ''GAME_OVER|'' @ ascii ''Buldozer'' @ ascii ''|'' @ ascii ''opp'' @ ascii ''|''
                    @ result ex_lib b)" .
  have m2: "ascii ''MOVE|Przeciwnik1|e2e4''
      \<in> set (sent (fst (choose_opponent ex_lib ex_sock (ascii ''Buldozer'') (Some ())
                  [ex_menu_frame, ex_frame])))"
    by (subst ex_menu_sent) simp
  from T2[THEN conjunct2, THEN conjunct2, THEN conjunct1, THEN bspec, OF m2]
  have d2: "ascii ''MOVE|Przeciwnik1|e2e4'' = ascii ''START_MATCH''
       \<or> (\<exists>mv. ascii ''MOVE|Przeciwnik1|e2e4'' = ascii ''MOVE|Przeciwnik1|'' @ uci ex_lib mv)
       \<or> (\<exists>b. ascii ''MOVE|Przeciwnik1|e2e4''
                = ascii ''GAME_OVER|'' @ ascii ''Buldozer'' @ ascii ''|Przeciwnik1|'' @ result ex_lib b)" .
  from T[THEN conjunct2, THEN conjunct2, THEN conjunct2, THEN conjunct2, THEN conjunct1,
         THEN mp, OF ex_online_guard]
  have c: "sent (fst (online_click ex_lib ex_sock True (ascii ''opp'') ex_game 401 301))
        = [ascii ''MOVE|opp|e2e4'']
   \<and> g_board (snd (online_click ex_lib ex_sock True (ascii ''opp'') ex_game 401 301))
        = push ex_lib (g_board ex_game) (Move ex_lib 12 28)"
    by (simp add: ex_lib_def ex_uci_def ascii_def)
  from T2[THEN conjunct2, THEN conjunct2, THEN conjunct2, THEN conjunct2, THEN conjunct2,
         THEN conjunct1, THEN mp, OF ex_over_guard]
  have o: "sent (fst (online_iteration ex_lib ex_sock (ascii ''Buldozer'') True (ascii ''opp'') ex_final []))
        = [ascii ''GAME_OVER|Buldozer|opp|1/2-1/2'']
   \<and> snd (online_iteration ex_lib ex_sock (ascii ''Buldozer'') True (ascii ''opp'') ex_final [])
        = Returned ex_final"
    by (simp add: ex_lib_def ex_final_def ascii_def)
  from T2[THEN conjunct2, THEN conjunct2, THEN conjunct2, THEN conjunct2, THEN conjunct2,
         THEN conjunct2, THEN mp, OF ex_menu_guard]
  have s: "\<exists>rest. sent (fst (choose_opponent ex_lib ex_sock (ascii ''Buldozer'') (Some ())
                          [ex_menu_frame, ex_frame]))
                = ascii ''START_MATCH'' # rest" .
  from ex_online_sent d ex_menu_sent d2 ex_online_guard c ex_over_guard o ex_menu_guard s
  show ?thesis by (intro conjI) simp_all
qed
section \<open>Proofs: a legal move is displayed\<close>

















lemma board_synergy_check: "board (synergy_check lib syz app) = board app"
  by (simp add: synergy_check_def split: option.splits sum.splits)

lemma do_move_board:
  assumes "san lib (board app) mv = Inr move_san"
  shows "\<exists>app'. do_move lib syz app mv = Inr app' \<and> board app' = push lib (board app) mv"
  using assms
  by (simp add: do_move_def Let_def board_synergy_check)

lemma handle_player_move_board:
  assumes "parse_move lib user_input (board app) = Inr mv"
    and "mv \<in> set (legal_moves lib (board app))"
    and "san lib (board app) mv = Inr move_san"
  shows "board (handle_player_move lib syz app user_input) = push lib (board app) mv"
  using assms do_move_board[OF assms(3), of syz]
  by (auto simp: handle_player_move_def)

























section \<open>Proofs: which moves are pushed\<close>

lemma handle_player_move_pushes:
  "board (handle_player_move lib syz app user_input) = board app
   \<or> (\<exists>mv\<in>set (legal_moves lib (board app)).
         board (handle_player_move lib syz app user_input) = push lib (board app) mv)"
proof (cases "parse_move lib user_input (board app)")
  case (Inl e)
  then show ?thesis by (simp add: handle_player_move_def)
next
  case (Inr mv)
  show ?thesis
  proof (cases "mv \<in> set (legal_moves lib (board app))")
    case False
    with Inr show ?thesis by (simp add: handle_player_move_def)
  next
    case True
    show ?thesis
    proof (cases "san lib (board app) mv")
      case (Inl e)
      with Inr True show ?thesis by (simp add: handle_player_move_def do_move_def)
    next
      case (Inr move_san)
      from handle_player_move_board[OF \<open>parse_move lib user_input (board app) = Inr mv\<close> True Inr]
      show ?thesis using True by blast
    qed
  qed
qed

lemma handle_engine_move_exact:
  "board (handle_engine_move lib syz reply app) = board app
   \<or> (\<exists>mv. reply = Inr (Some mv)
         \<and> board (handle_engine_move lib syz reply app) = push lib (board app) mv)"
proof (cases "\<exists>h mv move_san. engine app = Some h \<and> reply = Inr (Some mv)
                \<and> san lib (board app) mv = Inr move_san")
  case True
  then obtain h mv move_san where
    h: "engine app = Some h" "reply = Inr (Some mv)" "san lib (board app) mv = Inr move_san"
    by blast
  from do_move_board[OF h(3), of syz] obtain app' where
    a: "do_move lib syz app mv = Inr app'" "board app' = push lib (board app) mv" by blast
  from h a have "board (handle_engine_move lib syz reply app) = push lib (board app) mv"
    by (simp add: handle_engine_move_def)
  with h(2) show ?thesis by blast
next
  case False
  then have "board (handle_engine_move lib syz reply app) = board app"
    by (auto simp: handle_engine_move_def split: option.splits sum.splits)
  then show ?thesis ..
qed

lemma py_choice_member: "py_choice r xs = Inr x \<Longrightarrow> x \<in> set xs"
  by (auto simp: py_choice_def split: if_splits)

lemma py_choice_raises: "py_choice r xs = Inl e \<Longrightarrow> xs = []"
  by (auto simp: py_choice_def split: if_splits)

lemma ai_engine_turn_pushes:
  "(\<forall>g'. snd (ai_engine_turn lib wrapped g fr) = Running g' \<longrightarrow>
      (\<exists>mv\<in>set (legal_moves lib (g_board g)).
          g_board g' = push lib (g_board g) mv \<and> move_history g' = move_history g @ [mv]))
   \<and> (\<forall>e. snd (ai_engine_turn lib wrapped g fr) = Raised e \<longrightarrow> legal_moves lib (g_board g) = [])
   \<and> snd (ai_engine_turn lib wrapped g fr) \<noteq> SysExit
   \<and> (\<forall>g'. snd (ai_engine_turn lib wrapped g fr) \<noteq> Returned g')"
  by (auto simp: ai_engine_turn_def Let_def split_beta
        split: option.splits sum.splits if_splits
        dest: py_choice_member py_choice_raises)

lemma ai_click_pushes:
  "g_board (snd (ai_click lib g x y)) = g_board g
   \<or> (\<exists>mv\<in>set (legal_moves lib (g_board g)).
         g_board (snd (ai_click lib g x y)) = push lib (g_board g) mv)"
  by (auto simp: ai_click_def Let_def split: option.splits)

lemma legal_position_player:
  "legal_position lib (board app) \<Longrightarrow>
     legal_position lib (board (handle_player_move lib syz app user_input))"
  using handle_player_move_pushes[of lib syz app user_input]
  by (auto intro: legal_position.step)

lemma legal_position_ai_click:
  "legal_position lib (g_board g) \<Longrightarrow> legal_position lib (g_board (snd (ai_click lib g x y)))"
  using ai_click_pushes[of lib g x y] by (auto intro: legal_position.step)

lemma legal_position_ai_events:
  "legal_position lib (g_board g) \<Longrightarrow>
     (\<forall>g'. snd (ai_events lib g evs) = Running g' \<or> snd (ai_events lib g evs) = Returned g'
        \<longrightarrow> legal_position lib (g_board g'))"
proof (induction lib g evs rule: ai_events.induct)
  case (3 lib g x y evs)
  from legal_position_ai_click[OF 3(2), of x y]
  have "legal_position lib (g_board (snd (ai_click lib g x y)))" .
  from 3(1)[OF refl prod.collapse this] show ?case by (simp add: split_beta)
qed simp_all

lemma legal_position_ai_engine_turn:
  assumes "legal_position lib (g_board g)"
    and "snd (ai_engine_turn lib wrapped g fr) = Running g'
         \<or> snd (ai_engine_turn lib wrapped g fr) = Returned g'"
  shows "legal_position lib (g_board g')"
proof -
  from assms(2) ai_engine_turn_pushes[of lib wrapped g fr]
  obtain mv where "mv \<in> set (legal_moves lib (g_board g))" "g_board g' = push lib (g_board g) mv"
    by auto
  with assms(1) show ?thesis by (simp add: legal_position.step)
qed

lemma legal_position_ai_iteration:
  assumes "legal_position lib (g_board g)"
  shows "\<forall>g'. snd (ai_iteration lib wrapped g fr) = Running g'
            \<or> snd (ai_iteration lib wrapped g fr) = Returned g'
        \<longrightarrow> legal_position lib (g_board g')"
proof (intro allI impI)
  fix g'
  assume o: "snd (ai_iteration lib wrapped g fr) = Running g'
            \<or> snd (ai_iteration lib wrapped g fr) = Returned g'"
  show "legal_position lib (g_board g')"
  proof (cases "is_game_over lib (g_board g)")
    case True
    with o assms show ?thesis by (simp add: ai_iteration_def Let_def)
  next
    case False
    show ?thesis
    proof (cases "turn lib (g_board g) = WHITE")
      case True
      with False o have "snd (ai_events lib g (events fr)) = Running g'
            \<or> snd (ai_events lib g (events fr)) = Returned g'"
        by (simp add: ai_iteration_def Let_def split_beta)
      with legal_position_ai_events[OF assms, of "events fr"] show ?thesis by blast
    next
      case nw: False
      with False o have "snd (ai_engine_turn lib wrapped g fr) = Running g'
            \<or> snd (ai_engine_turn lib wrapped g fr) = Returned g'"
        by (simp add: ai_iteration_def Let_def split_beta)
      with assms show ?thesis by (rule legal_position_ai_engine_turn)
    qed
  qed
qed

lemma legal_position_ai_loop:
  "legal_position lib (g_board g) \<Longrightarrow>
     (\<forall>g'. snd (ai_loop lib wrapped g frs) = Running g' \<or> snd (ai_loop lib wrapped g frs) = Returned g'
        \<longrightarrow> legal_position lib (g_board g'))"
proof (induction frs arbitrary: g)
  case Nil
  then show ?case by simp
next
  case (Cons fr frs)
  from legal_position_ai_iteration[OF Cons.prems, of wrapped fr]
  have it: "\<forall>g'. snd (ai_iteration lib wrapped g fr) = Running g'
            \<or> snd (ai_iteration lib wrapped g fr) = Returned g'
        \<longrightarrow> legal_position lib (g_board g')" .
  show ?case
  proof (cases "snd (ai_iteration lib wrapped g fr)")
    case (Running g1)
    with it have "legal_position lib (g_board g1)" by simp
    from Cons.IH[OF this] Running show ?thesis
      by (cases "ai_iteration lib wrapped g fr") (simp add: split_beta)
  qed (use it in \<open>cases "ai_iteration lib wrapped g fr"; simp add: split_beta\<close>)+
qed

lemma legal_position_play_against_ai:
  "\<forall>g'. snd (play_against_ai lib wrapped frames) = Running g'
         \<or> snd (play_against_ai lib wrapped frames) = Returned g'
     \<longrightarrow> legal_position lib (g_board g')"
  unfolding play_against_ai_def
  by (rule legal_position_ai_loop) (simp add: legal_position.start)

lemma handle_engine_move_push:
  assumes "engine app = Some h" and "san lib (board app) mv = Inr move_san"
  shows "board (handle_engine_move lib syz (Inr (Some mv)) app) = push lib (board app) mv"
proof -
  from do_move_board[OF assms(2), of syz] obtain app' where
    a: "do_move lib syz app mv = Inr app'" "board app' = push lib (board app) mv" by blast
  with assms show ?thesis by (simp add: handle_engine_move_def)
qed

text \<open>
  C3. Which moves the operations that change a board push. \<^verbatim>\<open>handle_player_move\<close> leaves
  the board or pushes a move it found in \<^verbatim>\<open>board.legal_moves\<close>; the engine turn of
  \<^verbatim>\<open>play_against_ai\<close> pushes the engine's move only after finding it truthy and in
  \<^verbatim>\<open>board.legal_moves\<close>, and otherwise a random element of \<^verbatim>\<open>board.legal_moves\<close> (when there
  is none, \<^verbatim>\<open>random.choice\<close> raises and nothing is pushed); a click pushes only a move found
  in \<^verbatim>\<open>board.legal_moves\<close>. So a legal position stays one under \<^verbatim>\<open>handle_player_move\<close>, and
  every board that \<^verbatim>\<open>play_against_ai\<close> reaches from the starting position is a legal
  position. \<^verbatim>\<open>handle_engine_move\<close> of the curses program makes no such test: it leaves the
  board or pushes exactly the move that \<^verbatim>\<open>engine.play\<close> returned, and it pushes that move
  whenever the library gives its SAN, legal or not. The library returns the null move for
  an engine's \<^verbatim>\<open>bestmove 0000\<close> and gives it the SAN \<^verbatim>\<open>--\<close>; pushed, it leaves a board that
  no sequence of legal moves reaches.
\<close>

theorem engine_move_pushed_unchecked:
  "(\<forall>h move_san. engine app = Some h \<and> san lib (board app) mv = Inr move_san \<longrightarrow>
        board (handle_engine_move lib syz (Inr (Some mv)) app) = push lib (board app) mv)
   \<and> (board (handle_engine_move lib syz reply app) = board app
      \<or> (\<exists>mv. reply = Inr (Some mv)
            \<and> board (handle_engine_move lib syz reply app) = push lib (board app) mv))
   \<and> (board (handle_player_move lib syz app user_input) = board app
      \<or> (\<exists>mv\<in>set (legal_moves lib (board app)).
            board (handle_player_move lib syz app user_input) = push lib (board app) mv))
   \<and> (\<forall>g'. snd (ai_engine_turn lib wrapped g fr) = Running g' \<longrightarrow>
        (\<exists>mv\<in>set (legal_moves lib (g_board g)).
            g_board g' = push lib (g_board g) mv \<and> move_history g' = move_history g @ [mv]))
   \<and> (\<forall>e. snd (ai_engine_turn lib wrapped g fr) = Raised e \<longrightarrow> legal_moves lib (g_board g) = [])
   \<and> (g_board (snd (ai_click lib g x y)) = g_board g
      \<or> (\<exists>mv\<in>set (legal_moves lib (g_board g)).
            g_board (snd (ai_click lib g x y)) = push lib (g_board g) mv))
   \<and> (legal_position lib (board app) \<longrightarrow>
        legal_position lib (board (handle_player_move lib syz app user_input)))
   \<and> (\<forall>g'. snd (play_against_ai lib wrapped frames) = Running g'
            \<or> snd (play_against_ai lib wrapped frames) = Returned g'
        \<longrightarrow> legal_position lib (g_board g'))"
  using handle_engine_move_push[of app _ lib mv _ syz]
        handle_engine_move_exact[of lib syz reply app]
        handle_player_move_pushes[of lib syz app user_input]
        ai_engine_turn_pushes[of lib wrapped g fr]
        ai_click_pushes[of lib g x y]
        legal_position_player[of lib app syz user_input]
        legal_position_play_against_ai[of lib wrapped frames]
  by (intro conjI impI allI) blast+

lemma ex_null_guard:
  "engine (ex_app\<lparr>board := [796]\<rparr>) = Some ()
   \<and> san ex_lib (board (ex_app\<lparr>board := [796]\<rparr>)) 0 = Inr (ascii ''--'')"
  by (simp add: ex_app_def ex_lib_def ex_san_def)

lemma ex_null_not_legal: "0 \<notin> set (legal_moves ex_lib (board (ex_app\<lparr>board := [796]\<rparr>)))"
  by (simp add: ex_app_def ex_lib_def ex_legal_def)

lemma ex_legal_before: "legal_position ex_lib (board (ex_app\<lparr>board := [796]\<rparr>))"
proof -
  have "legal_position ex_lib (push ex_lib (new_board ex_lib) 796)"
    by (rule legal_position.step[OF legal_position.start]) (simp add: ex_lib_def ex_legal_def)
  then show ?thesis by (simp add: ex_lib_def)
qed

lemma ex_not_legal_after: "\<not> legal_position ex_lib [796, 0]"
proof
  assume "legal_position ex_lib [796, 0]"
  then show False
  proof (cases rule: legal_position.cases)
    case start
    then show False by (simp add: ex_lib_def)
  next
    case (step b mv)
    from step(1) have "mv = 0" by (simp add: ex_lib_def)
    with step(3) show False by (simp add: ex_lib_def ex_legal_def split: if_splits)
  qed
qed

lemma ex_null_move:
  "handle_engine_move ex_lib ex_syzygy (Inr (Some 0)) (ex_app\<lparr>board := [796]\<rparr>)
     = ex_app\<lparr>board := [796, 0], last_move_black := ascii ''--'', move_count := 2,
             status_msg := ascii ''Silnik (ruch): --''\<rparr>"
  by (simp add: handle_engine_move_def do_move_def synergy_check_def Let_def ex_app_def
        ex_lib_def ex_san_def USE_SYZYGY_AFTER_MOVE_def WHITE_def ascii_def)

lemma ex_engine_turn:
  "snd (ai_engine_turn ex_lib (Some ()) (ex_game\<lparr>g_board := [796]\<rparr>) ex_null_frame)
     = Running (ex_game\<lparr>g_board := [796, 3364], move_history := [3364]\<rparr>)"
  "snd (ai_engine_turn ex_lib (Some ()) ex_final ex_click_frame)
     = Raised (IndexError (ascii ''Cannot choose from an empty sequence''))"
  by (simp_all add: ai_engine_turn_def get_move_def py_choice_def Let_def ex_null_frame_def
        ex_click_frame_def ex_final_def ex_game_def ex_lib_def ex_legal_def)

lemma ex_play:
  "snd (play_against_ai ex_lib (Some ()) [ex_frame])
     = Running \<lparr>g_board = [796], selected_square = None, move_history = [796], running = True\<rparr>"
  by (simp add: play_against_ai_def ai_iteration_def ai_click_def Let_def split_beta ex_frame_def
        ex_click ex_lib_def ex_legal_def ex_piece_at_def WHITE_def)

theorem engine_move_pushed_unchecked_witness:
  "engine (ex_app\<lparr>board := [796]\<rparr>) = Some ()
   \<and> san ex_lib (board (ex_app\<lparr>board := [796]\<rparr>)) 0 = Inr (ascii ''--'')
   \<and> legal_position ex_lib (board (ex_app\<lparr>board := [796]\<rparr>))
   \<and> 0 \<notin> set (legal_moves ex_lib (board (ex_app\<lparr>board := [796]\<rparr>)))
   \<and> board (handle_engine_move ex_lib ex_syzygy (Inr (Some 0)) (ex_app\<lparr>board := [796]\<rparr>))
        = push ex_lib (board (ex_app\<lparr>board := [796]\<rparr>)) 0
   \<and> handle_engine_move ex_lib ex_syzygy (Inr (Some 0)) (ex_app\<lparr>board := [796]\<rparr>)
        = ex_app\<lparr>board := [796, 0], last_move_black := ascii ''--'', move_count := 2,
                status_msg := ascii ''Silnik (ruch): --''\<rparr>
   \<and> \<not> legal_position ex_lib
          (board (handle_engine_move ex_lib ex_syzygy (Inr (Some 0)) (ex_app\<lparr>board := [796]\<rparr>)))
   \<and> engine_reply ex_null_frame = Inr (Some 0)
   \<and> snd (ai_engine_turn ex_lib (Some ()) (ex_game\<lparr>g_board := [796]\<rparr>) ex_null_frame)
        = Running (ex_game\<lparr>g_board := [796, 3364], move_history := [3364]\<rparr>)
   \<and> (\<exists>mv\<in>set (legal_moves ex_lib (g_board (ex_game\<lparr>g_board := [796]\<rparr>))).
         g_board (ex_game\<lparr>g_board := [796, 3364], move_history := [3364]\<rparr>)
           = push ex_lib (g_board (ex_game\<lparr>g_board := [796]\<rparr>)) mv
         \<and> move_history (ex_game\<lparr>g_board := [796, 3364], move_history := [3364]\<rparr>)
           = move_history (ex_game\<lparr>g_board := [796]\<rparr>) @ [mv])
   \<and> snd (ai_engine_turn ex_lib (Some ()) ex_final ex_click_frame)
        = Raised (IndexError (ascii ''Cannot choose from an empty sequence''))
   \<and> legal_moves ex_lib (g_board ex_final) = []
   \<and> legal_position ex_lib
        (board (handle_player_move ex_lib ex_syzygy (ex_app\<lparr>board := [796]\<rparr>) (ascii ''e7e5'')))
   \<and> snd (play_against_ai ex_lib (Some ()) [ex_frame])
        = Running \<lparr>g_board = [796], selected_square = None, move_history = [796], running = True\<rparr>
   \<and> legal_position ex_lib
        (g_board (\<lparr>g_board = [796], selected_square = None, move_history = [796], running = True\<rparr>
                    :: (nat list, nat) game))"
proof -
  note T = engine_move_pushed_unchecked[where lib = ex_lib and app = "ex_app\<lparr>board := [796]\<rparr>"
             and syz = ex_syzygy and mv = 0 and user_input = "ascii ''e7e5''"
             and wrapped = "Some ()" and g = "ex_game\<lparr>g_board := [796]\<rparr>" and fr = ex_null_frame
             and frames = "[ex_frame]"]
  note T' = engine_move_pushed_unchecked[where lib = ex_lib and wrapped = "Some ()"
             and g = ex_final and fr = ex_click_frame]
  from T[THEN conjunct1, rule_format, OF ex_null_guard]
  have a: "board (handle_engine_move ex_lib ex_syzygy (Inr (Some 0)) (ex_app\<lparr>board := [796]\<rparr>))
        = push ex_lib (board (ex_app\<lparr>board := [796]\<rparr>)) 0" .
  have n: "\<not> legal_position ex_lib
          (board (handle_engine_move ex_lib ex_syzygy (Inr (Some 0)) (ex_app\<lparr>board := [796]\<rparr>)))"
    using ex_not_legal_after unfolding a by (simp add: ex_lib_def)
  from T[THEN conjunct2, THEN conjunct2, THEN conjunct2, THEN conjunct2, THEN conjunct2,
         THEN conjunct2, THEN conjunct1, THEN mp, OF ex_legal_before]
  have b: "legal_position ex_lib
        (board (handle_player_move ex_lib ex_syzygy (ex_app\<lparr>board := [796]\<rparr>) (ascii ''e7e5'')))" .
  from T[THEN conjunct2, THEN conjunct2, THEN conjunct2, THEN conjunct1, rule_format,
         OF ex_engine_turn(1)]
  have c: "\<exists>mv\<in>set (legal_moves ex_lib (g_board (ex_game\<lparr>g_board := [796]\<rparr>))).
         g_board (ex_game\<lparr>g_board := [796, 3364], move_history := [3364]\<rparr>)
           = push ex_lib (g_board (ex_game\<lparr>g_board := [796]\<rparr>)) mv
         \<and> move_history (ex_game\<lparr>g_board := [796, 3364], move_history := [3364]\<rparr>)
           = move_history (ex_game\<lparr>g_board := [796]\<rparr>) @ [mv]" .
  from T'[THEN conjunct2, THEN conjunct2, THEN conjunct2, THEN conjunct2, THEN conjunct1,
         rule_format, OF ex_engine_turn(2)]
  have d: "legal_moves ex_lib (g_board ex_final) = []" .
  from T[THEN conjunct2, THEN conjunct2, THEN conjunct2, THEN conjunct2, THEN conjunct2,
         THEN conjunct2, THEN conjunct2, rule_format, OF disjI1, OF ex_play]
  have e: "legal_position ex_lib
        (g_board (\<lparr>g_board = [796], selected_square = None, move_history = [796], running = True\<rparr>
                    :: (nat list, nat) game))" .
  have f: "engine_reply ex_null_frame = Inr (Some 0)" by (simp add: ex_null_frame_def)
  from ex_null_guard ex_legal_before ex_null_not_legal a ex_null_move n f ex_engine_turn c d b
    ex_play e
  show ?thesis by (intro conjI) simp_all
qed
end
